theory Spec2Isabelle
  imports Main "HOL-Library.AList"
begin

section \<open>The in-memory device and fault registry of c-plane\<close>

text \<open>
  A shallow embedding of \<^verbatim>\<open>internal/context/context.go\<close> and of the structs of
  \<^verbatim>\<open>internal/models/device.go\<close> it works on.

  \<^item> Go structs are records. A field name that two structs share keeps its name in the
    first record and carries a suffix in the others (\<open>_F\<close> for \<open>Fault\<close>, \<open>_DF\<close> for
    \<open>DeviceFilter\<close>).
  \<^item> The registry stores pointers (\<^verbatim>\<open>map[string]*models.Device\<close>), and three of its
    operations write through them. Pointers are addresses into explicit heaps, one per
    struct type; \<^verbatim>\<open>nil\<close> is \<open>None\<close> where a parameter may be nil.
  \<^item> A Go map that is iterated (\<^verbatim>\<open>devices\<close>, \<^verbatim>\<open>faults\<close>) is an association list with
    distinct keys; its order is the order the iteration happens to take. A Go map that is
    only indexed (tags, histograms) is a partial function.
  \<^item> \<^verbatim>\<open>time.Time\<close> is the number of nanoseconds since the zero \<^verbatim>\<open>Time\<close>; every call of
    \<^verbatim>\<open>time.Now()\<close> is a parameter of the operation that makes it.
  \<^item> The mutexes are left out: the embedding is of one operation at a time.
\<close>

subsection \<open>Time\<close>

type_synonym Time = int
type_synonym Duration = int

definition zeroTime :: Time where
  "zeroTime = 0"

definition Minute :: Duration where
  "Minute = 60 * 1000000000"

definition minDuration :: Duration where
  "minDuration = - (2 ^ 63)"

definition maxDuration :: Duration where
  "maxDuration = 2 ^ 63 - 1"

text \<open>\<^verbatim>\<open>t.Sub(u)\<close>: the difference, saturated to the range of a \<^verbatim>\<open>Duration\<close> (int64).\<close>

definition Sub :: "Time \<Rightarrow> Time \<Rightarrow> Duration" where
  "Sub t u =
     (let d = t - u
      in if d < minDuration then minDuration
         else if maxDuration < d then maxDuration
         else d)"

text \<open>\<^verbatim>\<open>time.Since(t)\<close> is \<^verbatim>\<open>time.Now().Sub(t)\<close>; \<open>now\<close> is that reading of the clock.\<close>

definition Since :: "Time \<Rightarrow> Time \<Rightarrow> Duration" where
  "Since now t = Sub now t"

subsection \<open>The structs of the models package\<close>

type_synonym addr = nat

text \<open>A value of type \<^verbatim>\<open>interface{}\<close>, as far as JSON decoding produces one.\<close>

datatype any = AnyNil | AnyBool bool | AnyNumber int | AnyString string

record DeviceID =
  Manufacturer :: string
  OUI :: string
  ProductClass :: string
  SerialNumber :: string
  DeviceIDString :: string
  HardwareVersion :: string
  SoftwareVersion :: string
  ModelName :: string
  ProvisioningCode :: string
  ManufacturerOUI :: string
  ExternalIPAddress :: string
  IPAddress :: string

record ConnectionRequest =
  URL :: string
  Username :: string
  Password :: string

record DeviceStatus =
  Online :: bool
  LastSeen :: Time
  ConnectionStatus :: string
  ErrorCount :: int

record Parameter =
  Path :: string
  Value :: any
  Type :: string
  Writable :: bool
  LastUpdate :: Time
  Attributes :: "string \<rightharpoonup> any"

record Device =
  ID :: string
  DeviceID :: DeviceID
  LastInform :: Time
  LastBoot :: Time
  LastBootstrap :: Time
  LastRegistered :: Time
  Root :: string
  Tags :: "string \<rightharpoonup> bool"
  DeviceInfo :: "string \<rightharpoonup> any"
  Parameters :: "string \<rightharpoonup> Parameter"
  ConnectionRequest :: ConnectionRequest
  Status :: DeviceStatus

record Fault =
  ID_F :: string
  DeviceID_F :: string
  DeviceSerial :: string
  DeviceModel :: string
  Channel :: string
  Code :: string
  Message :: string
  Detail :: string
  Severity :: string
  Timestamp :: Time
  Expiry :: "Time option"
  Retries :: int
  Status_F :: string
  AcknowledgedBy :: string
  AcknowledgedAt :: "Time option"
  ResolvedBy :: string
  ResolvedAt :: "Time option"
  Tags_F :: "string list"

definition SeverityCritical :: string where
  "SeverityCritical = ''critical''"

definition SeverityMajor :: string where
  "SeverityMajor = ''major''"

definition SeverityMinor :: string where
  "SeverityMinor = ''minor''"

definition SeverityWarning :: string where
  "SeverityWarning = ''warning''"

definition SeverityInfo :: string where
  "SeverityInfo = ''info''"

definition FaultStatusActive :: string where
  "FaultStatusActive = ''active''"

definition FaultStatusAcknowledged :: string where
  "FaultStatusAcknowledged = ''acknowledged''"

definition FaultStatusResolved :: string where
  "FaultStatusResolved = ''resolved''"

definition FaultStatusExpired :: string where
  "FaultStatusExpired = ''expired''"

record IPRange =
  StartIP :: string
  EndIP :: string

record PaginationOptions =
  Page :: int
  PageSize :: int
  SortBy :: string
  SortDir :: string

record DeviceFilter =
  IPRange :: "IPRange option"
  Manufacturer_DF :: string
  ModelName_DF :: string
  ProductClass_DF :: string
  Tags_DF :: "string list"
  Online_DF :: "bool option"
  Search :: string
  Pagination :: "PaginationOptions option"

record DeviceStats =
  TotalDevices :: int
  OnlineDevices :: int
  OfflineDevices :: int
  DevicesByVendor :: "string \<rightharpoonup> int"
  DevicesByModel :: "string \<rightharpoonup> int"
  ActiveFaults :: int
  CriticalFaults :: int

text \<open>The errors of the models package that the registry and its callers name.\<close>

datatype error =
    ErrInvalidDeviceID
  | ErrFaultNotFound
  | ErrFaultAlreadyAcknowledged
  | ErrFaultAlreadyResolved

text \<open>A run-time panic: the only one these operations can raise is the nil dereference.\<close>

datatype panic = NilPointerDereference

subsection \<open>The context\<close>

text \<open>
  The fields \<open>devices\<close>, \<open>faults\<close>, \<open>statsCache\<close> and \<open>statsCacheTime\<close> are those of the Go
  struct. The heaps hold the objects its pointers refer to; \<open>statsNext\<close> is the address
  the next \<^verbatim>\<open>&models.DeviceStats{...}\<close> gets, so that a new snapshot is a new object.
  A pointer held by one of the maps is never nil, since \<^verbatim>\<open>AddDevice\<close> and \<^verbatim>\<open>AddFault\<close>, the
  only operations that store one, read the identifier through it first; so the maps
  hold addresses. The connection status and the configuration of the Go struct take no
  part in the registry and are left out.
\<close>

record Context =
  devices :: "(string \<times> addr) list"
  faults :: "(string \<times> addr) list"
  statsCache :: addr
  statsCacheTime :: Time
  deviceHeap :: "addr \<Rightarrow> Device"
  faultHeap :: "addr \<Rightarrow> Fault"
  statsHeap :: "addr \<Rightarrow> DeviceStats"
  statsNext :: addr

text \<open>
  \<^verbatim>\<open>GetContext\<close>, at its first call: empty maps, a statistics object with empty histograms,
  and the zero \<^verbatim>\<open>Time\<close> as the cache's time. The device and fault objects of the process
  are given.
\<close>

definition GetContext :: "(addr \<Rightarrow> Device) \<Rightarrow> (addr \<Rightarrow> Fault) \<Rightarrow> Context" where
  "GetContext dh fh =
     \<lparr> devices = [], faults = [], statsCache = 0, statsCacheTime = zeroTime,
       deviceHeap = dh, faultHeap = fh,
       statsHeap = (\<lambda>_. \<lparr> TotalDevices = 0, OnlineDevices = 0, OfflineDevices = 0,
                          DevicesByVendor = Map.empty, DevicesByModel = Map.empty,
                          ActiveFaults = 0, CriticalFaults = 0 \<rparr>),
       statsNext = 1 \<rparr>"

text \<open>The keys of a Go map are distinct.\<close>

definition wellFormed :: "Context \<Rightarrow> bool" where
  "wellFormed c \<longleftrightarrow> distinct (map fst (devices c)) \<and> distinct (map fst (faults c))"

subsection \<open>The statistics cache\<close>

definition invalidateStatsCache :: "Context \<Rightarrow> Context" where
  "invalidateStatsCache c = c\<lparr>statsCacheTime := zeroTime\<rparr>"

text \<open>\<^verbatim>\<open>m[k]++\<close> on a \<^verbatim>\<open>map[string]int\<close>: a missing key reads as 0.\<close>

definition increment :: "(string \<rightharpoonup> int) \<Rightarrow> string \<Rightarrow> (string \<rightharpoonup> int)" where
  "increment m k = m(k \<mapsto> (case m k of None \<Rightarrow> 0 | Some n \<Rightarrow> n) + 1)"

text \<open>The body of the loop over the devices, for one device.\<close>

definition countDevice :: "Device \<Rightarrow> DeviceStats \<Rightarrow> DeviceStats" where
  "countDevice device stats =
     (let stats1 = (if Online (Status device)
                    then stats\<lparr>OnlineDevices := OnlineDevices stats + 1\<rparr>
                    else stats\<lparr>OfflineDevices := OfflineDevices stats + 1\<rparr>);
          vendor = Manufacturer (DeviceID device);
          vendor = (if vendor = '''' then ''Unknown'' else vendor);
          stats2 = stats1\<lparr>DevicesByVendor := increment (DevicesByVendor stats1) vendor\<rparr>;
          model = ModelName (DeviceID device);
          model = (if model = '''' then ''Unknown'' else model)
      in stats2\<lparr>DevicesByModel := increment (DevicesByModel stats2) model\<rparr>)"

fun countDevices :: "(addr \<Rightarrow> Device) \<Rightarrow> (string \<times> addr) list \<Rightarrow> DeviceStats \<Rightarrow> DeviceStats" where
  "countDevices h [] stats = stats"
| "countDevices h ((k, p) # rest) stats = countDevices h rest (countDevice (h p) stats)"

text \<open>The body of the loop over the faults, for one fault.\<close>

definition countFault :: "Fault \<Rightarrow> DeviceStats \<Rightarrow> DeviceStats" where
  "countFault fault stats =
     (if Status_F fault = FaultStatusActive \<or> Status_F fault = FaultStatusAcknowledged
      then (let stats1 = stats\<lparr>ActiveFaults := ActiveFaults stats + 1\<rparr>
            in if Severity fault = SeverityCritical
               then stats1\<lparr>CriticalFaults := CriticalFaults stats1 + 1\<rparr>
               else stats1)
      else stats)"

fun countFaults :: "(addr \<Rightarrow> Fault) \<Rightarrow> (string \<times> addr) list \<Rightarrow> DeviceStats \<Rightarrow> DeviceStats" where
  "countFaults h [] stats = stats"
| "countFaults h ((k, p) # rest) stats = countFaults h rest (countFault (h p) stats)"

text \<open>The snapshot \<^verbatim>\<open>updateStatsCache\<close> builds: the struct literal, then the two loops.\<close>

definition newStats :: "Context \<Rightarrow> DeviceStats" where
  "newStats c =
     countFaults (faultHeap c) (faults c)
       (countDevices (deviceHeap c) (devices c)
          \<lparr> TotalDevices = int (length (devices c)),
            OnlineDevices = 0,
            OfflineDevices = 0,
            DevicesByVendor = Map.empty,
            DevicesByModel = Map.empty,
            ActiveFaults = 0,
            CriticalFaults = 0 \<rparr>)"

text \<open>
  \<^verbatim>\<open>updateStatsCache\<close>: the snapshot is a new object, the cache points to it, and the
  cache's time is the clock's reading \<open>now\<close>.
\<close>

definition updateStatsCache :: "Time \<Rightarrow> Context \<Rightarrow> Context" where
  "updateStatsCache now c =
     (let stats = statsNext c
      in c\<lparr> statsHeap := (statsHeap c)(stats := newStats c),
            statsNext := Suc stats,
            statsCache := stats,
            statsCacheTime := now \<rparr>)"

text \<open>
  \<^verbatim>\<open>GetDeviceStats\<close> returns the pointer to the snapshot. \<open>now\<close> is the clock's reading in
  \<^verbatim>\<open>time.Since\<close>, \<open>now'\<close> the one \<^verbatim>\<open>updateStatsCache\<close> takes when it runs.
\<close>

definition GetDeviceStats :: "Time \<Rightarrow> Time \<Rightarrow> Context \<Rightarrow> addr \<times> Context" where
  "GetDeviceStats now now' c =
     (if Since now (statsCacheTime c) < Minute then (statsCache c, c)
      else (let c' = updateStatsCache now' c in (statsCache c', c')))"

subsection \<open>Devices\<close>

definition AddDevice :: "addr option \<Rightarrow> Context \<Rightarrow> panic + Context" where
  "AddDevice device c =
     (case device of
        None \<Rightarrow> Inl NilPointerDereference
      | Some p \<Rightarrow>
          Inr (invalidateStatsCache
                 (c\<lparr>devices := AList.update (ID (deviceHeap c p)) p (devices c)\<rparr>)))"

definition GetDevice :: "string \<Rightarrow> Context \<Rightarrow> addr option \<times> bool" where
  "GetDevice deviceID c =
     (case map_of (devices c) deviceID of
        None \<Rightarrow> (None, False)
      | Some device \<Rightarrow> (Some device, True))"

definition RemoveDevice :: "string \<Rightarrow> Context \<Rightarrow> Context" where
  "RemoveDevice deviceID c =
     invalidateStatsCache (c\<lparr>devices := AList.delete deviceID (devices c)\<rparr>)"

text \<open>\<open>now\<close> is the reading of \<^verbatim>\<open>time.Now()\<close> stored as the last-seen time.\<close>

definition UpdateDeviceStatus :: "Time \<Rightarrow> string \<Rightarrow> bool \<Rightarrow> Context \<Rightarrow> Context" where
  "UpdateDeviceStatus now deviceID online c =
     (case map_of (devices c) deviceID of
        None \<Rightarrow> c
      | Some p \<Rightarrow>
          (let device = deviceHeap c p;
               status = (Status device)\<lparr>Online := online, LastSeen := now\<rparr>;
               status = (if online then status\<lparr>ConnectionStatus := ''connected''\<rparr>
                         else status\<lparr>ConnectionStatus := ''disconnected''\<rparr>)
           in invalidateStatsCache
                (c\<lparr>deviceHeap := (deviceHeap c)(p := device\<lparr>Status := status\<rparr>)\<rparr>)))"

subsection \<open>The filter\<close>

text \<open>The placeholder of the source: every address is in every range.\<close>

definition isIPInRange :: "string \<Rightarrow> string \<Rightarrow> string \<Rightarrow> bool" where
  "isIPInRange ip startIP endIP = True"

text \<open>\<^verbatim>\<open>device.Tags[tag]\<close> on a \<^verbatim>\<open>map[string]bool\<close>: a missing key reads as false.\<close>

definition hasTag :: "Device \<Rightarrow> string \<Rightarrow> bool" where
  "hasTag device tag = (case Tags device tag of None \<Rightarrow> False | Some b \<Rightarrow> b)"

text \<open>The loop over the filter's tags: false at the first tag the device lacks.\<close>

fun checkTags :: "Device \<Rightarrow> string list \<Rightarrow> bool" where
  "checkTags device [] = True"
| "checkTags device (tag # rest) = (if \<not> hasTag device tag then False else checkTags device rest)"

text \<open>
  \<^verbatim>\<open>matchesFilter\<close>, for a device of the registry (never nil there); the filter may be nil.
\<close>

definition matchesFilter :: "Device \<Rightarrow> DeviceFilter option \<Rightarrow> bool" where
  "matchesFilter device filter' =
     (case filter' of
        None \<Rightarrow> True
      | Some f \<Rightarrow>
          if (case IPRange f of
                None \<Rightarrow> False
              | Some r \<Rightarrow> \<not> isIPInRange (IPAddress (DeviceID device)) (StartIP r) (EndIP r))
          then False
          else if Manufacturer_DF f \<noteq> '''' \<and> Manufacturer (DeviceID device) \<noteq> Manufacturer_DF f
          then False
          else if ModelName_DF f \<noteq> '''' \<and> ModelName (DeviceID device) \<noteq> ModelName_DF f
          then False
          else if ProductClass_DF f \<noteq> '''' \<and> ProductClass (DeviceID device) \<noteq> ProductClass_DF f
          then False
          else if (case Online_DF f of
                     None \<Rightarrow> False
                   | Some b \<Rightarrow> Online (Status device) \<noteq> b)
          then False
          else if 0 < length (Tags_DF f) \<and> \<not> checkTags device (Tags_DF f)
          then False
          else True)"

text \<open>The loop of \<^verbatim>\<open>GetFilteredDevices\<close>: \<open>filtered\<close> is the slice appended to.\<close>

fun filterDevices ::
  "(addr \<Rightarrow> Device) \<Rightarrow> DeviceFilter option \<Rightarrow> (string \<times> addr) list \<Rightarrow> addr list \<Rightarrow> addr list" where
  "filterDevices h filter' [] filtered = filtered"
| "filterDevices h filter' ((k, p) # rest) filtered =
     filterDevices h filter' rest
       (if matchesFilter (h p) filter' then filtered @ [p] else filtered)"

definition GetFilteredDevices :: "DeviceFilter option \<Rightarrow> Context \<Rightarrow> addr list" where
  "GetFilteredDevices filter' c = filterDevices (deviceHeap c) filter' (devices c) []"

subsection \<open>Faults\<close>

definition AddFault :: "addr option \<Rightarrow> Context \<Rightarrow> panic + Context" where
  "AddFault fault c =
     (case fault of
        None \<Rightarrow> Inl NilPointerDereference
      | Some p \<Rightarrow>
          Inr (invalidateStatsCache
                 (c\<lparr>faults := AList.update (ID_F (faultHeap c p)) p (faults c)\<rparr>)))"

definition GetFault :: "string \<Rightarrow> Context \<Rightarrow> addr option \<times> bool" where
  "GetFault faultID c =
     (case map_of (faults c) faultID of
        None \<Rightarrow> (None, False)
      | Some fault \<Rightarrow> (Some fault, True))"

text \<open>
  \<^verbatim>\<open>AcknowledgeFault\<close> and \<^verbatim>\<open>ResolveFault\<close> return Go's \<^verbatim>\<open>error\<close>: \<open>None\<close> is \<^verbatim>\<open>nil\<close>.
  \<open>now\<close> is the reading of \<^verbatim>\<open>time.Now()\<close> they record.
\<close>

definition AcknowledgeFault :: "Time \<Rightarrow> string \<Rightarrow> string \<Rightarrow> Context \<Rightarrow> error option \<times> Context" where
  "AcknowledgeFault now faultID acknowledgedBy c =
     (case map_of (faults c) faultID of
        None \<Rightarrow> (Some ErrFaultNotFound, c)
      | Some p \<Rightarrow>
          (let fault = (faultHeap c p)\<lparr> Status_F := FaultStatusAcknowledged,
                                        AcknowledgedBy := acknowledgedBy,
                                        AcknowledgedAt := Some now \<rparr>
           in (None, invalidateStatsCache (c\<lparr>faultHeap := (faultHeap c)(p := fault)\<rparr>))))"

definition ResolveFault :: "Time \<Rightarrow> string \<Rightarrow> string \<Rightarrow> Context \<Rightarrow> error option \<times> Context" where
  "ResolveFault now faultID resolvedBy c =
     (case map_of (faults c) faultID of
        None \<Rightarrow> (Some ErrFaultNotFound, c)
      | Some p \<Rightarrow>
          (let fault = (faultHeap c p)\<lparr> Status_F := FaultStatusResolved,
                                        ResolvedBy := resolvedBy,
                                        ResolvedAt := Some now \<rparr>
           in (None, invalidateStatsCache (c\<lparr>faultHeap := (faultHeap c)(p := fault)\<rparr>))))"

subsection \<open>The callers of the fault operations\<close>

text \<open>
  The two HTTP handlers that acknowledge a fault, and the two that resolve one, as far as
  they read and write the context. The request is given as it is bound: the fault
  identifier of the route, and the actor of the body, \<open>None\<close> when \<^verbatim>\<open>ShouldBindJSON\<close>
  returns an error. The result is the status code of the response. The deletion of the
  fault from the ACS, in the resolving handler of the producer package, does not touch
  the context and is left out.
\<close>

datatype status_code =
    StatusOK
  | StatusBadRequest
  | StatusNotFound
  | StatusInternalServerError

text \<open>\<^verbatim>\<open>producer.AcknowledgeFault\<close> of \<^verbatim>\<open>internal/sbi/producer/fault.go\<close>.\<close>

definition producer_AcknowledgeFault ::
  "Time \<Rightarrow> string \<Rightarrow> string option \<Rightarrow> Context \<Rightarrow> status_code \<times> Context" where
  "producer_AcknowledgeFault now faultID req c =
     (if faultID = '''' then (StatusBadRequest, c)
      else case req of
        None \<Rightarrow> (StatusBadRequest, c)
      | Some acknowledgedBy \<Rightarrow>
          (case GetFault faultID c of
             (None, _) \<Rightarrow> (StatusNotFound, c)
           | (Some fault, exists) \<Rightarrow>
               if \<not> exists then (StatusNotFound, c)
               else if Status_F (faultHeap c fault) = FaultStatusAcknowledged
               then (StatusBadRequest, c)
               else if Status_F (faultHeap c fault) = FaultStatusResolved
               then (StatusBadRequest, c)
               else (case AcknowledgeFault now faultID acknowledgedBy c of
                       (Some err, c') \<Rightarrow> (StatusInternalServerError, c')
                     | (None, c') \<Rightarrow> (StatusOK, c'))))"

text \<open>\<^verbatim>\<open>producer.ResolveFault\<close> of \<^verbatim>\<open>internal/sbi/producer/fault.go\<close>.\<close>

definition producer_ResolveFault ::
  "Time \<Rightarrow> string \<Rightarrow> string option \<Rightarrow> Context \<Rightarrow> status_code \<times> Context" where
  "producer_ResolveFault now faultID req c =
     (if faultID = '''' then (StatusBadRequest, c)
      else case req of
        None \<Rightarrow> (StatusBadRequest, c)
      | Some resolvedBy \<Rightarrow>
          (case GetFault faultID c of
             (None, _) \<Rightarrow> (StatusNotFound, c)
           | (Some fault, exists) \<Rightarrow>
               if \<not> exists then (StatusNotFound, c)
               else if Status_F (faultHeap c fault) = FaultStatusResolved
               then (StatusBadRequest, c)
               else (case ResolveFault now faultID resolvedBy c of
                       (Some err, c') \<Rightarrow> (StatusInternalServerError, c')
                     | (None, c') \<Rightarrow> (StatusOK, c'))))"

text \<open>\<^verbatim>\<open>handlers.AcknowledgeFault\<close> of \<^verbatim>\<open>internal/web/handlers/misc.go\<close>.\<close>

definition handlers_AcknowledgeFault ::
  "Time \<Rightarrow> string \<Rightarrow> string option \<Rightarrow> Context \<Rightarrow> status_code \<times> Context" where
  "handlers_AcknowledgeFault now faultID req c =
     (if faultID = '''' then (StatusBadRequest, c)
      else case req of
        None \<Rightarrow> (StatusBadRequest, c)
      | Some acknowledgedBy \<Rightarrow>
          (case AcknowledgeFault now faultID acknowledgedBy c of
             (Some err, c') \<Rightarrow> (StatusInternalServerError, c')
           | (None, c') \<Rightarrow> (StatusOK, c')))"

text \<open>\<^verbatim>\<open>handlers.ResolveFault\<close> of \<^verbatim>\<open>internal/web/handlers/misc.go\<close>.\<close>

definition handlers_ResolveFault ::
  "Time \<Rightarrow> string \<Rightarrow> string option \<Rightarrow> Context \<Rightarrow> status_code \<times> Context" where
  "handlers_ResolveFault now faultID req c =
     (if faultID = '''' then (StatusBadRequest, c)
      else case req of
        None \<Rightarrow> (StatusBadRequest, c)
      | Some resolvedBy \<Rightarrow>
          (case ResolveFault now faultID resolvedBy c of
             (Some err, c') \<Rightarrow> (StatusInternalServerError, c')
           | (None, c') \<Rightarrow> (StatusOK, c')))"

subsection \<open>Agreement of the cache with the registry\<close>

text \<open>
  The cache is valid from the time it is computed until it is invalidated; while its
  time is not the zero time, the snapshot it points to is the statistics of the maps.
\<close>

definition coherent :: "Context \<Rightarrow> bool" where
  "coherent c \<longleftrightarrow>
     (if statsCacheTime c = zeroTime then True else statsHeap c (statsCache c) = newStats c)"

subsection \<open>The contexts that the operations reach\<close>

text \<open>
  The contexts of a run: the new context, and what an operation of the registry leaves
  of a context of the run.
\<close>

inductive reachable :: "Context \<Rightarrow> bool" where
  getContext: "reachable (GetContext dh fh)"
| addDevice: "reachable c \<Longrightarrow> AddDevice device c = Inr c' \<Longrightarrow> reachable c'"
| removeDevice: "reachable c \<Longrightarrow> reachable (RemoveDevice deviceID c)"
| updateDeviceStatus: "reachable c \<Longrightarrow> reachable (UpdateDeviceStatus now deviceID online c)"
| addFault: "reachable c \<Longrightarrow> AddFault fault c = Inr c' \<Longrightarrow> reachable c'"
| acknowledgeFault:
    "reachable c \<Longrightarrow> reachable (snd (AcknowledgeFault now faultID acknowledgedBy c))"
| resolveFault: "reachable c \<Longrightarrow> reachable (snd (ResolveFault now faultID resolvedBy c))"
| getDeviceStats: "reachable c \<Longrightarrow> reachable (snd (GetDeviceStats now now' c))"

subsection \<open>An example store\<close>

text \<open>The zero values of the structs, from which a Go struct literal starts.\<close>

definition zeroDeviceID :: DeviceID where
  "zeroDeviceID =
     \<lparr> Manufacturer = '''', OUI = '''', ProductClass = '''', SerialNumber = '''',
       DeviceIDString = '''', HardwareVersion = '''', SoftwareVersion = '''', ModelName = '''',
       ProvisioningCode = '''', ManufacturerOUI = '''', ExternalIPAddress = '''',
       IPAddress = '''' \<rparr>"

definition zeroDevice :: Device where
  "zeroDevice =
     \<lparr> ID = '''', DeviceID = zeroDeviceID, LastInform = zeroTime, LastBoot = zeroTime,
       LastBootstrap = zeroTime, LastRegistered = zeroTime, Root = '''', Tags = Map.empty,
       DeviceInfo = Map.empty, Parameters = Map.empty,
       ConnectionRequest = \<lparr> URL = '''', Username = '''', Password = '''' \<rparr>,
       Status = \<lparr> Online = False, LastSeen = zeroTime, ConnectionStatus = '''',
                  ErrorCount = 0 \<rparr> \<rparr>"

definition zeroFault :: Fault where
  "zeroFault =
     \<lparr> ID_F = '''', DeviceID_F = '''', DeviceSerial = '''', DeviceModel = '''', Channel = '''',
       Code = '''', Message = '''', Detail = '''', Severity = '''', Timestamp = zeroTime,
       Expiry = None, Retries = 0, Status_F = '''', AcknowledgedBy = '''',
       AcknowledgedAt = None, ResolvedBy = '''', ResolvedAt = None, Tags_F = [] \<rparr>"

text \<open>
  The two demonstration devices of \<^verbatim>\<open>web/handlers/overview.go\<close> (the second has no
  manufacturer), a third one that carries the tag \<open>x\<close>, and a device with the third one's
  identifier and no tag.
\<close>

definition testDevice1 :: Device where
  "testDevice1 =
     zeroDevice\<lparr> ID := ''test-device-1'',
                 DeviceID := zeroDeviceID\<lparr> SerialNumber := ''TD001'',
                                            Manufacturer := ''TestVendor'',
                                            ModelName := ''TestModel-A'',
                                            ProductClass := ''TestClass'',
                                            IPAddress := ''192.168.1.100'' \<rparr>,
                 Status := (Status zeroDevice)\<lparr> Online := True \<rparr> \<rparr>"

definition testDevice2 :: Device where
  "testDevice2 =
     zeroDevice\<lparr> ID := ''test-device-2'',
                 DeviceID := zeroDeviceID\<lparr> SerialNumber := ''TD002'',
                                            Manufacturer := '''',
                                            ModelName := ''TestModel-B'',
                                            ProductClass := ''TestClass'',
                                            IPAddress := ''192.168.1.101'' \<rparr>,
                 Status := (Status zeroDevice)\<lparr> Online := False \<rparr> \<rparr>"

definition testDevice3 :: Device where
  "testDevice3 =
     zeroDevice\<lparr> ID := ''test-device-3'',
                 DeviceID := zeroDeviceID\<lparr> SerialNumber := ''TD003'',
                                            Manufacturer := ''Acme'',
                                            ModelName := ''TestModel-A'',
                                            ProductClass := ''TestClass'',
                                            IPAddress := ''192.168.1.102'' \<rparr>,
                 Tags := [''x'' \<mapsto> True],
                 Status := (Status zeroDevice)\<lparr> Online := True \<rparr> \<rparr>"

definition testDevices :: "addr \<Rightarrow> Device" where
  "testDevices =
     (\<lambda>_. zeroDevice)(1 := testDevice1, 2 := testDevice2, 3 := testDevice3,
                      4 := testDevice3\<lparr>Tags := Map.empty\<rparr>)"

text \<open>
  A critical fault that is active, a minor fault that is resolved, and a major fault that is
  active.
\<close>

definition testFault1 :: Fault where
  "testFault1 =
     zeroFault\<lparr> ID_F := ''test-fault-1'', DeviceID_F := ''test-device-1'',
                DeviceSerial := ''TD001'', Code := ''TEST_001'',
                Message := ''Test critical fault'', Severity := SeverityCritical,
                Status_F := FaultStatusActive \<rparr>"

definition testFault2 :: Fault where
  "testFault2 =
     zeroFault\<lparr> ID_F := ''test-fault-2'', DeviceID_F := ''test-device-2'',
                DeviceSerial := ''TD002'', Code := ''TEST_002'',
                Message := ''Test minor fault'', Severity := SeverityMinor,
                Status_F := FaultStatusResolved, ResolvedBy := ''alice'',
                ResolvedAt := Some 5 \<rparr>"

definition testFault3 :: Fault where
  "testFault3 =
     zeroFault\<lparr> ID_F := ''test-fault-3'', DeviceID_F := ''test-device-3'',
                DeviceSerial := ''TD003'', Code := ''TEST_003'',
                Message := ''Test major fault'', Severity := SeverityMajor,
                Status_F := FaultStatusActive \<rparr>"

definition testFaults :: "addr \<Rightarrow> Fault" where
  "testFaults = (\<lambda>_. zeroFault)(1 := testFault1, 2 := testFault2, 3 := testFault3)"

text \<open>
  The context after the three devices and the first two faults have been added to a new
  one: three devices (two online, one offline), two faults (one critical and active, one
  minor and resolved), and a cache that has never been computed.
\<close>

definition testContext :: Context where
  "testContext =
     (GetContext testDevices testFaults)
       \<lparr> devices := [(''test-device-1'', 1), (''test-device-2'', 2), (''test-device-3'', 3)],
         faults := [(''test-fault-1'', 1), (''test-fault-2'', 2)] \<rparr>"

text \<open>A reading of the clock in the year 2026, and one second.\<close>

definition testNow :: Time where
  "testNow = 63900000000 * 1000000000"

definition Second :: Duration where
  "Second = 1000000000"

subsection \<open>Auxiliary definitions\<close>

text \<open>The zero value of a filter.\<close>

definition zeroDeviceFilter :: DeviceFilter where
  "zeroDeviceFilter =
     \<lparr> IPRange = None, Manufacturer_DF = '''', ModelName_DF = '''', ProductClass_DF = '''',
       Tags_DF = [], Online_DF = None, Search = '''', Pagination = None \<rparr>"

text \<open>A histogram after a run of increments, one for each key of the list.\<close>

fun increments :: "(string \<rightharpoonup> int) \<Rightarrow> string list \<Rightarrow> (string \<rightharpoonup> int)" where
  "increments m [] = m"
| "increments m (k # ks) = increments (increment m k) ks"

section \<open>Properties\<close>

subsection \<open>Auxiliary facts\<close>

lemma Since_zeroTime: "Minute \<le> now \<Longrightarrow> \<not> Since now zeroTime < Minute"
  by (simp add: Since_def Sub_def zeroTime_def Minute_def minDuration_def maxDuration_def)

lemma map_of_absent: "k \<notin> fst ` set al \<Longrightarrow> map_of al k = None"
  by (simp add: map_of_eq_None_iff)

lemma length_update:
  "length (AList.update k v al) = (if k \<in> fst ` set al then length al else Suc (length al))"
  by (induction al) auto

lemma AddDevice_Some:
  "AddDevice (Some p) c =
     Inr (c\<lparr>devices := AList.update (ID (deviceHeap c p)) p (devices c),
            statsCacheTime := zeroTime\<rparr>)"
  by (simp add: AddDevice_def invalidateStatsCache_def)

lemma AddFault_Some:
  "AddFault (Some p) c =
     Inr (c\<lparr>faults := AList.update (ID_F (faultHeap c p)) p (faults c),
            statsCacheTime := zeroTime\<rparr>)"
  by (simp add: AddFault_def invalidateStatsCache_def)

subsection \<open>The loops of the statistics\<close>

lemma countDevice_fields:
  "TotalDevices (countDevice d s) = TotalDevices s"
  "OnlineDevices (countDevice d s) = OnlineDevices s + (if Online (Status d) then 1 else 0)"
  "OfflineDevices (countDevice d s) = OfflineDevices s + (if Online (Status d) then 0 else 1)"
  "DevicesByVendor (countDevice d s) =
     increment (DevicesByVendor s)
       (if Manufacturer (DeviceID d) = '''' then ''Unknown'' else Manufacturer (DeviceID d))"
  "DevicesByModel (countDevice d s) =
     increment (DevicesByModel s)
       (if ModelName (DeviceID d) = '''' then ''Unknown'' else ModelName (DeviceID d))"
  "ActiveFaults (countDevice d s) = ActiveFaults s"
  "CriticalFaults (countDevice d s) = CriticalFaults s"
  by (simp_all add: countDevice_def Let_def)

lemma countFault_fields:
  "TotalDevices (countFault f s) = TotalDevices s"
  "OnlineDevices (countFault f s) = OnlineDevices s"
  "OfflineDevices (countFault f s) = OfflineDevices s"
  "DevicesByVendor (countFault f s) = DevicesByVendor s"
  "DevicesByModel (countFault f s) = DevicesByModel s"
  "ActiveFaults (countFault f s) =
     ActiveFaults s +
       (if Status_F f = FaultStatusActive \<or> Status_F f = FaultStatusAcknowledged then 1 else 0)"
  "CriticalFaults (countFault f s) =
     CriticalFaults s +
       (if (Status_F f = FaultStatusActive \<or> Status_F f = FaultStatusAcknowledged) \<and>
           Severity f = SeverityCritical then 1 else 0)"
  by (simp_all add: countFault_def Let_def)

lemma countFaults_device_fields:
  "TotalDevices (countFaults h fs s) = TotalDevices s"
  "OnlineDevices (countFaults h fs s) = OnlineDevices s"
  "OfflineDevices (countFaults h fs s) = OfflineDevices s"
  "DevicesByVendor (countFaults h fs s) = DevicesByVendor s"
  "DevicesByModel (countFaults h fs s) = DevicesByModel s"
  by (induction h fs s rule: countFaults.induct; simp add: countFault_fields)+

lemma countDevices_fault_fields:
  "TotalDevices (countDevices h ds s) = TotalDevices s"
  "ActiveFaults (countDevices h ds s) = ActiveFaults s"
  "CriticalFaults (countDevices h ds s) = CriticalFaults s"
  by (induction h ds s rule: countDevices.induct; simp add: countDevice_fields)+

lemma countDevices_online:
  "OnlineDevices (countDevices h ds s) =
     OnlineDevices s + int (length (filter (\<lambda>d. Online (Status d)) (map (h \<circ> snd) ds)))"
  by (induction h ds s rule: countDevices.induct) (simp_all add: countDevice_fields)

lemma countDevices_offline:
  "OfflineDevices (countDevices h ds s) =
     OfflineDevices s + int (length (filter (\<lambda>d. \<not> Online (Status d)) (map (h \<circ> snd) ds)))"
  by (induction h ds s rule: countDevices.induct) (simp_all add: countDevice_fields)

lemma countFaults_active:
  "ActiveFaults (countFaults h fs s) =
     ActiveFaults s +
       int (length (filter (\<lambda>f. Status_F f = FaultStatusActive \<or> Status_F f = FaultStatusAcknowledged)
              (map (h \<circ> snd) fs)))"
  by (induction h fs s rule: countFaults.induct) (simp_all add: countFault_fields)

lemma countFaults_critical:
  "CriticalFaults (countFaults h fs s) =
     CriticalFaults s +
       int (length (filter (\<lambda>f. (Status_F f = FaultStatusActive \<or> Status_F f = FaultStatusAcknowledged)
                              \<and> Severity f = SeverityCritical)
              (map (h \<circ> snd) fs)))"
  by (induction h fs s rule: countFaults.induct) (simp_all add: countFault_fields)

lemma increment_apply:
  "increment m k v = (if v = k then Some ((case m k of None \<Rightarrow> 0 | Some n \<Rightarrow> n) + 1) else m v)"
  by (simp add: increment_def)

lemma increments_lookup:
  "increments m ks v =
     (if v \<in> set ks
      then Some ((case m v of None \<Rightarrow> 0 | Some n \<Rightarrow> n) + int (length (filter (\<lambda>k. k = v) ks)))
      else m v)"
  by (induction ks arbitrary: m) (auto simp add: increment_apply filter_empty_conv)

lemma increments_empty:
  "increments Map.empty ks v =
     (let n = length (filter (\<lambda>k. k = v) ks) in if n = 0 then None else Some (int n))"
  by (auto simp add: increments_lookup Let_def filter_empty_conv)

lemma finite_dom_increments: "finite (dom m) \<Longrightarrow> finite (dom (increments m ks))"
  by (induction m ks rule: increments.induct) (auto simp add: increment_def)

lemma increment_sum:
  assumes "finite (dom m)"
  shows "(\<Sum>v\<in>dom (increment m k). the (increment m k v)) = (\<Sum>v\<in>dom m. the (m v)) + 1"
proof (cases "m k")
  case None
  then have "k \<notin> dom m" by auto
  moreover have "dom (increment m k) = insert k (dom m)"
    by (simp add: increment_def)
  moreover have "(\<Sum>v\<in>dom m. the (increment m k v)) = (\<Sum>v\<in>dom m. the (m v))"
    using \<open>k \<notin> dom m\<close> by (intro sum.cong) (auto simp add: increment_def)
  ultimately show ?thesis
    using assms None by (simp add: increment_def)
next
  case (Some n)
  then have k: "k \<in> dom m" by auto
  then have d: "dom (increment m k) = dom m"
    by (auto simp add: increment_def)
  have "(\<Sum>v\<in>dom m. the (increment m k v)) =
        the (increment m k k) + (\<Sum>v\<in>dom m - {k}. the (increment m k v))"
    using assms k by (rule sum.remove)
  also have "(\<Sum>v\<in>dom m - {k}. the (increment m k v)) = (\<Sum>v\<in>dom m - {k}. the (m v))"
    by (intro sum.cong) (auto simp add: increment_def)
  also have "the (increment m k k) = the (m k) + 1"
    using Some by (simp add: increment_def)
  finally have "(\<Sum>v\<in>dom m. the (increment m k v)) =
        (the (m k) + (\<Sum>v\<in>dom m - {k}. the (m v))) + 1"
    by simp
  also have "the (m k) + (\<Sum>v\<in>dom m - {k}. the (m v)) = (\<Sum>v\<in>dom m. the (m v))"
    using assms k by (rule sum.remove [symmetric])
  finally show ?thesis
    using d by simp
qed

lemma increments_sum:
  "finite (dom m) \<Longrightarrow>
   (\<Sum>v\<in>dom (increments m ks). the (increments m ks v)) = (\<Sum>v\<in>dom m. the (m v)) + int (length ks)"
proof (induction m ks rule: increments.induct)
  case (1 m)
  then show ?case by simp
next
  case (2 m k ks)
  have "finite (dom (increment m k))"
    using "2.prems" by (simp add: increment_def)
  then show ?case
    using "2.IH" increment_sum [OF "2.prems", of k] by simp
qed

lemma countDevices_vendor:
  "DevicesByVendor (countDevices h ds s) =
     increments (DevicesByVendor s)
       (map (\<lambda>d. if Manufacturer (DeviceID d) = '''' then ''Unknown'' else Manufacturer (DeviceID d))
          (map (h \<circ> snd) ds))"
  by (induction h ds s rule: countDevices.induct) (simp_all add: countDevice_fields)

lemma countDevices_model:
  "DevicesByModel (countDevices h ds s) =
     increments (DevicesByModel s)
       (map (\<lambda>d. if ModelName (DeviceID d) = '''' then ''Unknown'' else ModelName (DeviceID d))
          (map (h \<circ> snd) ds))"
  by (induction h ds s rule: countDevices.induct) (simp_all add: countDevice_fields)

subsection \<open>The snapshot and the cache\<close>

lemma snapshot_updateStatsCache:
  "statsHeap (updateStatsCache now c) (statsCache (updateStatsCache now c)) = newStats c"
  by (simp add: updateStatsCache_def Let_def)

lemma GetDeviceStats_stale:
  "\<not> Since now (statsCacheTime c) < Minute \<Longrightarrow>
   GetDeviceStats now now' c = (statsCache (updateStatsCache now' c), updateStatsCache now' c)"
  by (simp add: GetDeviceStats_def Let_def)

lemma GetDeviceStats_fresh:
  "Since now (statsCacheTime c) < Minute \<Longrightarrow> GetDeviceStats now now' c = (statsCache c, c)"
  by (simp add: GetDeviceStats_def)

lemma newStats_fields:
  "TotalDevices (newStats c) = int (length (devices c))"
  "OnlineDevices (newStats c) =
     int (length (filter (\<lambda>d. Online (Status d)) (map (deviceHeap c \<circ> snd) (devices c))))"
  "OfflineDevices (newStats c) =
     int (length (filter (\<lambda>d. \<not> Online (Status d)) (map (deviceHeap c \<circ> snd) (devices c))))"
  "DevicesByVendor (newStats c) =
     increments Map.empty
       (map (\<lambda>d. if Manufacturer (DeviceID d) = '''' then ''Unknown'' else Manufacturer (DeviceID d))
          (map (deviceHeap c \<circ> snd) (devices c)))"
  "DevicesByModel (newStats c) =
     increments Map.empty
       (map (\<lambda>d. if ModelName (DeviceID d) = '''' then ''Unknown'' else ModelName (DeviceID d))
          (map (deviceHeap c \<circ> snd) (devices c)))"
  "ActiveFaults (newStats c) =
     int (length (filter (\<lambda>f. Status_F f = FaultStatusActive \<or> Status_F f = FaultStatusAcknowledged)
            (map (faultHeap c \<circ> snd) (faults c))))"
  "CriticalFaults (newStats c) =
     int (length (filter (\<lambda>f. (Status_F f = FaultStatusActive \<or> Status_F f = FaultStatusAcknowledged)
                            \<and> Severity f = SeverityCritical)
            (map (faultHeap c \<circ> snd) (faults c))))"
  by (simp_all add: newStats_def countFaults_device_fields countDevices_fault_fields
      countDevices_online countDevices_offline countDevices_vendor countDevices_model
      countFaults_active countFaults_critical)

lemma length_filter_map: "length (filter P (map f xs)) = length (filter (\<lambda>x. P (f x)) xs)"
  by (induction xs) auto

lemma length_filter_conj_le: "length (filter (\<lambda>x. P x \<and> Q x) xs) \<le> length (filter P xs)"
  by (induction xs) auto

lemma updateStatsCache_fields:
  "statsCacheTime (updateStatsCache now c) = now"
  "statsCache (updateStatsCache now c) = statsNext c"
  "statsNext (updateStatsCache now c) = Suc (statsNext c)"
  "devices (updateStatsCache now c) = devices c"
  "faults (updateStatsCache now c) = faults c"
  "deviceHeap (updateStatsCache now c) = deviceHeap c"
  "faultHeap (updateStatsCache now c) = faultHeap c"
  by (simp_all add: updateStatsCache_def Let_def)

lemma GetDeviceStats_invalid:
  "Minute \<le> now \<Longrightarrow> statsCacheTime c = zeroTime \<Longrightarrow>
   GetDeviceStats now now' c = (statsCache (updateStatsCache now' c), updateStatsCache now' c)"
  by (simp add: GetDeviceStats_stale Since_zeroTime)

lemma mutation_statsCacheTime:
  "AddDevice (Some p) c = Inr c' \<Longrightarrow> statsCacheTime c' = zeroTime"
  "statsCacheTime (RemoveDevice deviceID c) = zeroTime"
  "deviceID \<in> fst ` set (devices c) \<Longrightarrow>
     statsCacheTime (UpdateDeviceStatus t deviceID online c) = zeroTime"
  "AddFault (Some q) c = Inr c' \<Longrightarrow> statsCacheTime c' = zeroTime"
  "AcknowledgeFault t faultID actor c = (None, c') \<Longrightarrow> statsCacheTime c' = zeroTime"
  "ResolveFault t faultID actor c = (None, c') \<Longrightarrow> statsCacheTime c' = zeroTime"
  by (auto simp add: AddDevice_Some AddFault_Some RemoveDevice_def UpdateDeviceStatus_def
      AcknowledgeFault_def ResolveFault_def invalidateStatsCache_def Let_def
      map_of_eq_None_iff split: option.splits)

subsection \<open>The keys stay distinct\<close>

lemma wellFormed_GetContext: "wellFormed (GetContext dh fh)"
  by (simp add: wellFormed_def GetContext_def)

lemma wellFormed_AddDevice:
  "wellFormed c \<Longrightarrow> AddDevice device c = Inr c' \<Longrightarrow> wellFormed c'"
  by (cases device) (auto simp add: AddDevice_def invalidateStatsCache_def wellFormed_def
      distinct_update)

lemma wellFormed_AddFault:
  "wellFormed c \<Longrightarrow> AddFault fault c = Inr c' \<Longrightarrow> wellFormed c'"
  by (cases fault) (auto simp add: AddFault_def invalidateStatsCache_def wellFormed_def
      distinct_update)

lemma wellFormed_RemoveDevice: "wellFormed c \<Longrightarrow> wellFormed (RemoveDevice deviceID c)"
  by (simp add: RemoveDevice_def invalidateStatsCache_def wellFormed_def distinct_delete)

lemma wellFormed_UpdateDeviceStatus:
  "wellFormed c \<Longrightarrow> wellFormed (UpdateDeviceStatus now deviceID online c)"
  by (simp add: UpdateDeviceStatus_def invalidateStatsCache_def wellFormed_def Let_def
      split: option.splits)

lemma wellFormed_AcknowledgeFault:
  "wellFormed c \<Longrightarrow> wellFormed (snd (AcknowledgeFault now faultID actor c))"
  by (simp add: AcknowledgeFault_def invalidateStatsCache_def wellFormed_def Let_def
      split: option.splits)

lemma wellFormed_ResolveFault:
  "wellFormed c \<Longrightarrow> wellFormed (snd (ResolveFault now faultID actor c))"
  by (simp add: ResolveFault_def invalidateStatsCache_def wellFormed_def Let_def
      split: option.splits)

lemma wellFormed_GetDeviceStats:
  "wellFormed c \<Longrightarrow> wellFormed (snd (GetDeviceStats now now' c))"
  by (simp add: GetDeviceStats_def updateStatsCache_def wellFormed_def Let_def)

subsection \<open>The cache agrees with the registry\<close>

text \<open>
  A cache whose time is not the zero time holds the statistics of the registry as it is.
  This is so in a new context, every operation keeps it so, and then every
  \<open>GetDeviceStats\<close> returns the statistics of the registry as it is, computed or cached.
\<close>

lemma newStats_cong:
  "devices c' = devices c \<Longrightarrow> faults c' = faults c \<Longrightarrow> deviceHeap c' = deviceHeap c \<Longrightarrow>
   faultHeap c' = faultHeap c \<Longrightarrow> newStats c' = newStats c"
  by (simp add: newStats_def)

lemma coherent_GetContext: "coherent (GetContext dh fh)"
  by (simp add: coherent_def GetContext_def)

lemma coherent_invalidateStatsCache: "coherent (invalidateStatsCache c)"
  by (simp add: coherent_def invalidateStatsCache_def)

lemma coherent_AddDevice: "AddDevice device c = Inr c' \<Longrightarrow> coherent c'"
  by (cases device) (auto simp add: AddDevice_def coherent_invalidateStatsCache)

lemma coherent_AddFault: "AddFault fault c = Inr c' \<Longrightarrow> coherent c'"
  by (cases fault) (auto simp add: AddFault_def coherent_invalidateStatsCache)

lemma coherent_RemoveDevice: "coherent (RemoveDevice deviceID c)"
  by (simp add: RemoveDevice_def coherent_invalidateStatsCache)

lemma coherent_UpdateDeviceStatus:
  "coherent c \<Longrightarrow> coherent (UpdateDeviceStatus now deviceID online c)"
  by (simp add: UpdateDeviceStatus_def Let_def coherent_invalidateStatsCache
      split: option.splits)

lemma coherent_AcknowledgeFault:
  "coherent c \<Longrightarrow> coherent (snd (AcknowledgeFault now faultID actor c))"
  by (simp add: AcknowledgeFault_def Let_def coherent_invalidateStatsCache split: option.splits)

lemma coherent_ResolveFault:
  "coherent c \<Longrightarrow> coherent (snd (ResolveFault now faultID actor c))"
  by (simp add: ResolveFault_def Let_def coherent_invalidateStatsCache split: option.splits)

lemma coherent_updateStatsCache: "coherent (updateStatsCache now c)"
proof -
  have "newStats (updateStatsCache now c) = newStats c"
    by (rule newStats_cong) (simp_all add: updateStatsCache_fields)
  then show ?thesis
    by (simp add: coherent_def snapshot_updateStatsCache)
qed

lemma coherent_GetDeviceStats:
  "coherent c \<Longrightarrow> coherent (snd (GetDeviceStats now now' c))"
  by (simp add: GetDeviceStats_def Let_def coherent_updateStatsCache)

lemma GetDeviceStats_reflects_registry:
  assumes "coherent c" and "Minute \<le> now"
  shows "statsHeap (snd (GetDeviceStats now now' c)) (fst (GetDeviceStats now now' c)) =
         newStats c"
proof (cases "Since now (statsCacheTime c) < Minute")
  case True
  with assms(2) have "statsCacheTime c \<noteq> zeroTime"
    using Since_zeroTime by auto
  with assms(1) have "statsHeap c (statsCache c) = newStats c"
    by (simp add: coherent_def)
  with True show ?thesis
    by (simp add: GetDeviceStats_fresh)
next
  case False
  then show ?thesis
    by (simp add: GetDeviceStats_stale snapshot_updateStatsCache)
qed

subsection \<open>The example context\<close>

text \<open>The example context is what the operations build from a new context.\<close>

lemma testContext_built:
  "AddFault (Some 2) (projr (AddFault (Some 1) (projr (AddDevice (Some 3)
     (projr (AddDevice (Some 2) (projr (AddDevice (Some 1)
        (GetContext testDevices testFaults))))))))) = Inr testContext"
  by (simp add: AddDevice_Some AddFault_Some GetContext_def testContext_def
      testDevices_def testDevice1_def testDevice2_def testDevice3_def zeroDevice_def
      testFaults_def testFault1_def testFault2_def zeroFault_def)

lemmas test_defs = GetContext_def testContext_def
  testDevices_def testDevice1_def testDevice2_def testDevice3_def zeroDevice_def
  zeroDeviceID_def testFaults_def testFault1_def testFault2_def zeroFault_def

lemma testContext_facts:
  "wellFormed testContext"
  "statsCacheTime testContext = zeroTime"
  "devices testContext = [(''test-device-1'', 1), (''test-device-2'', 2), (''test-device-3'', 3)]"
  "faults testContext = [(''test-fault-1'', 1), (''test-fault-2'', 2)]"
  "deviceHeap testContext = testDevices"
  "faultHeap testContext = testFaults"
  "statsCache testContext = 0"
  "statsNext testContext = 1"
  by (simp_all add: wellFormed_def GetContext_def testContext_def)

lemma testNow_late: "Minute \<le> testNow"
  by (simp add: Minute_def testNow_def)

text \<open>The first read of the statistics computes them, as the object at address 1.\<close>

lemma testContext_computed:
  "GetDeviceStats testNow testNow testContext = (1, updateStatsCache testNow testContext)"
  by (simp add: GetDeviceStats_invalid testNow_late testContext_facts updateStatsCache_fields)

subsection \<open>Invariants of a run\<close>

text \<open>The cached snapshot is an object that has been allocated.\<close>

lemma allocated_mutations:
  "AddDevice device c = Inr c' \<Longrightarrow> statsCache c' = statsCache c \<and> statsNext c' = statsNext c"
  "statsCache (RemoveDevice deviceID c) = statsCache c \<and>
   statsNext (RemoveDevice deviceID c) = statsNext c"
  "statsCache (UpdateDeviceStatus now deviceID online c) = statsCache c \<and>
   statsNext (UpdateDeviceStatus now deviceID online c) = statsNext c"
  "AddFault fault c = Inr c' \<Longrightarrow> statsCache c' = statsCache c \<and> statsNext c' = statsNext c"
  "statsCache (snd (AcknowledgeFault now faultID actor c)) = statsCache c \<and>
   statsNext (snd (AcknowledgeFault now faultID actor c)) = statsNext c"
  "statsCache (snd (ResolveFault now faultID actor c)) = statsCache c \<and>
   statsNext (snd (ResolveFault now faultID actor c)) = statsNext c"
  by (auto simp add: AddDevice_def AddFault_def RemoveDevice_def UpdateDeviceStatus_def
      AcknowledgeFault_def ResolveFault_def invalidateStatsCache_def Let_def
      split: option.splits)

lemma allocated_GetDeviceStats:
  "statsCache c < statsNext c \<Longrightarrow>
   statsCache (snd (GetDeviceStats now now' c)) < statsNext (snd (GetDeviceStats now now' c))"
  by (simp add: GetDeviceStats_def updateStatsCache_fields Let_def)

lemma reachable_allocated: "reachable c \<Longrightarrow> statsCache c < statsNext c"
proof (induction rule: reachable.induct)
  case (getContext dh fh)
  show ?case by (simp add: GetContext_def)
next
  case (getDeviceStats c now now')
  then show ?case by (simp add: allocated_GetDeviceStats)
qed (simp_all add: allocated_mutations)

lemma reachable_wellFormed: "reachable c \<Longrightarrow> wellFormed c"
proof (induction rule: reachable.induct)
  case (getContext dh fh)
  show ?case by (rule wellFormed_GetContext)
next
  case (addDevice c device c')
  then show ?case by (simp add: wellFormed_AddDevice)
next
  case (addFault c fault c')
  then show ?case by (simp add: wellFormed_AddFault)
qed (simp_all add: wellFormed_RemoveDevice wellFormed_UpdateDeviceStatus
    wellFormed_AcknowledgeFault wellFormed_ResolveFault wellFormed_GetDeviceStats)

lemma reachable_coherent: "reachable c \<Longrightarrow> coherent c"
proof (induction rule: reachable.induct)
  case (getContext dh fh)
  show ?case by (rule coherent_GetContext)
next
  case (addDevice c device c')
  then show ?case by (simp add: coherent_AddDevice)
next
  case (addFault c fault c')
  then show ?case by (simp add: coherent_AddFault)
qed (simp_all add: coherent_RemoveDevice coherent_UpdateDeviceStatus
    coherent_AcknowledgeFault coherent_ResolveFault coherent_GetDeviceStats)

text \<open>
  In a run, every \<open>GetDeviceStats\<close> returns the statistics of the registry as it is then;
  and one that finds the cache older than a minute returns an object that is not the
  cached one.
\<close>

lemma reachable_GetDeviceStats:
  "reachable c \<Longrightarrow> Minute \<le> now \<Longrightarrow>
   statsHeap (snd (GetDeviceStats now now' c)) (fst (GetDeviceStats now now' c)) = newStats c"
  by (simp add: GetDeviceStats_reflects_registry reachable_coherent)

lemma reachable_recomputed_object:
  "reachable c \<Longrightarrow> \<not> Since now (statsCacheTime c) < Minute \<Longrightarrow>
   fst (GetDeviceStats now now' c) \<noteq> statsCache c"
  using reachable_allocated [of c]
  by (simp add: GetDeviceStats_stale updateStatsCache_fields)

lemma reachable_testContext: "reachable testContext"
proof -
  let ?c0 = "GetContext testDevices testFaults"
  let ?c1 = "projr (AddDevice (Some 1) ?c0)"
  let ?c2 = "projr (AddDevice (Some 2) ?c1)"
  let ?c3 = "projr (AddDevice (Some 3) ?c2)"
  let ?c4 = "projr (AddFault (Some 1) ?c3)"
  have "reachable ?c0"
    by (rule reachable.getContext)
  then have "reachable ?c1"
    by (rule reachable.addDevice [where device = "Some 1"]) (simp add: AddDevice_Some)
  then have "reachable ?c2"
    by (rule reachable.addDevice [where device = "Some 2"]) (simp add: AddDevice_Some)
  then have "reachable ?c3"
    by (rule reachable.addDevice [where device = "Some 3"]) (simp add: AddDevice_Some)
  then have "reachable ?c4"
    by (rule reachable.addFault [where fault = "Some 1"]) (simp add: AddFault_Some)
  then show ?thesis
    by (rule reachable.addFault [where fault = "Some 2"]) (rule testContext_built)
qed

subsection \<open>Upsert and lookup of a device\<close>

text \<open>
  Claim C3. For every device \<open>D\<close> (the object a non-nil pointer \<open>p\<close> refers to) and every
  prior content of the store, \<open>AddDevice\<close> succeeds, and immediately afterwards
  \<open>GetDevice\<close> of \<open>D\<close>'s identifier returns \<open>(p, true)\<close>. No object of the heap is changed,
  so what the returned pointer refers to is exactly \<open>D\<close>: nothing of a device stored
  before under that identifier is merged into it. The map is the old one with the
  identifier bound to \<open>p\<close>.
\<close>

theorem AddDevice_GetDevice:
  "\<exists>c'. AddDevice (Some p) c = Inr c' \<and>
        GetDevice (ID (deviceHeap c p)) c' = (Some p, True) \<and>
        deviceHeap c' = deviceHeap c \<and>
        map_of (devices c') = (map_of (devices c))(ID (deviceHeap c p) \<mapsto> p)"
  by (simp add: AddDevice_Some GetDevice_def update_conv')

text \<open>
  The test of the specification: the stored device carries the tag \<open>x\<close>; after the upsert
  of a device with the same identifier and no tags, the lookup gives a device with no
  tags.
\<close>

theorem AddDevice_GetDevice_witness:
  "GetDevice ''test-device-3'' testContext = (Some 3, True) \<and>
   Tags (deviceHeap testContext 3) ''x'' = Some True \<and>
   ID (deviceHeap testContext 4) = ''test-device-3'' \<and>
   (\<exists>c'. AddDevice (Some 4) testContext = Inr c' \<and>
         GetDevice ''test-device-3'' c' = (Some 4, True) \<and>
         Tags (deviceHeap c' 4) = Map.empty)"
  using AddDevice_GetDevice [of 4 testContext]
  by (auto simp add: GetDevice_def test_defs)

subsection \<open>No validation of the identifier\<close>

text \<open>
  Claim C8, as stated, fails: a device whose identifier is the empty string is stored,
  under the empty key. The example context holds no device under the empty key; the
  device at address 0 has the empty identifier; \<open>AddDevice\<close> of it succeeds and the lookup
  of the empty key then finds it, in a map that has grown by one entry.
\<close>

theorem AddDevice_empty_ID_counterexample:
  "ID (deviceHeap testContext 0) = '''' \<and>
   GetDevice '''' testContext = (None, False) \<and>
   \<not> isl (AddDevice (Some 0) testContext) \<and>
   GetDevice '''' (projr (AddDevice (Some 0) testContext)) = (Some 0, True) \<and>
   length (devices (projr (AddDevice (Some 0) testContext))) = Suc (length (devices testContext))"
  by (simp add: AddDevice_Some GetDevice_def test_defs)

text \<open>
  Claim C8, amended. \<open>AddDevice\<close> validates nothing: for every device (every non-nil
  pointer), whether its identifier is empty or not, it succeeds, binds the identifier to
  the pointer in the map (inserting or replacing), sets the cache's time to the zero time
  and changes nothing else. In particular a device with the empty identifier is found
  under the empty key afterwards.
\<close>

theorem AddDevice_no_validation:
  "\<exists>c'. AddDevice (Some p) c = Inr c' \<and>
        map_of (devices c') = (map_of (devices c))(ID (deviceHeap c p) \<mapsto> p) \<and>
        length (devices c') =
          (if ID (deviceHeap c p) \<in> fst ` set (devices c) then length (devices c)
           else Suc (length (devices c))) \<and>
        statsCacheTime c' = zeroTime \<and>
        c'\<lparr>devices := devices c, statsCacheTime := statsCacheTime c\<rparr> = c \<and>
        (ID (deviceHeap c p) = '''' \<longrightarrow> GetDevice '''' c' = (Some p, True))"
  by (simp add: AddDevice_Some GetDevice_def update_conv' length_update)

theorem AddDevice_no_validation_witness:
  "ID (deviceHeap testContext 0) = '''' \<and>
   '''' \<notin> fst ` set (devices testContext) \<and>
   (\<exists>c'. AddDevice (Some 0) testContext = Inr c' \<and>
         map_of (devices c') = (map_of (devices testContext))('''' \<mapsto> 0) \<and>
         length (devices c') = 4 \<and>
         statsCacheTime c' = zeroTime \<and>
         GetDevice '''' c' = (Some 0, True))"
proof -
  have empty: "ID (deviceHeap testContext 0) = ''''"
    by (simp add: test_defs)
  have absent: "'''' \<notin> fst ` set (devices testContext)"
    by (simp add: test_defs)
  have len: "length (devices testContext) = 3"
    by (simp add: test_defs)
  from AddDevice_no_validation [of 0 testContext] empty absent len show ?thesis
    by auto
qed

subsection \<open>Updating the status of a device\<close>

text \<open>
  Claim C9. \<open>UpdateDeviceStatus\<close> leaves the context as it is when no device is stored
  under the identifier. When one is, at the pointer \<open>p\<close>, then in the object at \<open>p\<close> the
  online flag is the argument, the last-seen time is the clock's reading, the connection
  status is \<open>connected\<close> or \<open>disconnected\<close> according to the flag; the error count of the
  status and every field outside the status are as before (putting the old status back
  gives the old device); every device object at another address is as before; the time
  of the statistics cache is the zero time; and nothing else of the context (the two
  maps, the faults, the cached snapshot) has changed. A key that holds the same pointer
  \<open>p\<close> names the same device.
\<close>

theorem UpdateDeviceStatus_frame:
  "(deviceID \<notin> fst ` set (devices c) \<longrightarrow> UpdateDeviceStatus now deviceID online c = c) \<and>
   (\<forall>p. map_of (devices c) deviceID = Some p \<longrightarrow>
      (let c' = UpdateDeviceStatus now deviceID online c;
           old = deviceHeap c p; new = deviceHeap c' p
       in Online (Status new) = online \<and>
          LastSeen (Status new) = now \<and>
          ConnectionStatus (Status new) = (if online then ''connected'' else ''disconnected'') \<and>
          ErrorCount (Status new) = ErrorCount (Status old) \<and>
          new\<lparr>Status := Status old\<rparr> = old \<and>
          (\<forall>q. q \<noteq> p \<longrightarrow> deviceHeap c' q = deviceHeap c q) \<and>
          statsCacheTime c' = zeroTime \<and>
          c'\<lparr>deviceHeap := deviceHeap c, statsCacheTime := statsCacheTime c\<rparr> = c))"
  by (auto simp add: UpdateDeviceStatus_def invalidateStatsCache_def Let_def map_of_absent)

theorem UpdateDeviceStatus_frame_witness:
  "UpdateDeviceStatus testNow ''missing-id'' True testContext = testContext \<and>
   Status (deviceHeap testContext 2) =
     \<lparr> Online = False, LastSeen = zeroTime, ConnectionStatus = '''', ErrorCount = 0 \<rparr> \<and>
   Status (deviceHeap (UpdateDeviceStatus testNow ''test-device-2'' True testContext) 2) =
     \<lparr> Online = True, LastSeen = testNow, ConnectionStatus = ''connected'', ErrorCount = 0 \<rparr> \<and>
   deviceHeap (UpdateDeviceStatus testNow ''test-device-2'' True testContext) 1 = testDevice1 \<and>
   devices (UpdateDeviceStatus testNow ''test-device-2'' True testContext) = devices testContext"
proof -
  let ?c' = "UpdateDeviceStatus testNow ''test-device-2'' True testContext"
  have absent: "''missing-id'' \<notin> fst ` set (devices testContext)"
    by (simp add: test_defs)
  have present: "map_of (devices testContext) ''test-device-2'' = Some 2"
    by (simp add: test_defs)
  have old: "Status (deviceHeap testContext 2) =
     \<lparr> Online = False, LastSeen = zeroTime, ConnectionStatus = '''', ErrorCount = 0 \<rparr>"
    by (simp add: test_defs)
  have one: "deviceHeap testContext 1 = testDevice1"
    by (simp add: test_defs)
  note frame = UpdateDeviceStatus_frame [of _ testContext testNow True]
  from frame [of "''missing-id''"] absent
  have noop: "UpdateDeviceStatus testNow ''missing-id'' True testContext = testContext"
    by simp
  from frame [of "''test-device-2''"] present
  have upd:
    "let old = deviceHeap testContext 2; new = deviceHeap ?c' 2
     in Online (Status new) = True \<and>
        LastSeen (Status new) = testNow \<and>
        ConnectionStatus (Status new) = (if True then ''connected'' else ''disconnected'') \<and>
        ErrorCount (Status new) = ErrorCount (Status old) \<and>
        new\<lparr>Status := Status old\<rparr> = old \<and>
        (\<forall>q. q \<noteq> 2 \<longrightarrow> deviceHeap ?c' q = deviceHeap testContext q) \<and>
        statsCacheTime ?c' = zeroTime \<and>
        ?c'\<lparr>deviceHeap := deviceHeap testContext,
            statsCacheTime := statsCacheTime testContext\<rparr> = testContext"
    unfolding Let_def by blast
  from upd old have st: "Status (deviceHeap ?c' 2) =
     \<lparr> Online = True, LastSeen = testNow, ConnectionStatus = ''connected'', ErrorCount = 0 \<rparr>"
    by (simp add: Let_def)
  from upd one have other: "deviceHeap ?c' 1 = testDevice1"
    by (simp add: Let_def)
  from upd have "?c'\<lparr>deviceHeap := deviceHeap testContext,
      statsCacheTime := statsCacheTime testContext\<rparr> = testContext"
    by (simp add: Let_def)
  then have "devices (?c'\<lparr>deviceHeap := deviceHeap testContext,
      statsCacheTime := statsCacheTime testContext\<rparr>) = devices testContext"
    by simp
  then have devs: "devices ?c' = devices testContext"
    by simp
  from noop old st other devs show ?thesis
    by simp
qed

subsection \<open>The filter\<close>

lemma checkTags_iff: "checkTags device tags \<longleftrightarrow> (\<forall>tag \<in> set tags. hasTag device tag)"
  by (induction tags) auto

lemma hasTag_iff: "hasTag device tag \<longleftrightarrow> Tags device tag = Some True"
  by (auto simp add: hasTag_def split: option.splits)

lemma matchesFilter_Some:
  "matchesFilter device (Some f) \<longleftrightarrow>
     (Manufacturer_DF f = '''' \<or> Manufacturer (DeviceID device) = Manufacturer_DF f) \<and>
     (ModelName_DF f = '''' \<or> ModelName (DeviceID device) = ModelName_DF f) \<and>
     (ProductClass_DF f = '''' \<or> ProductClass (DeviceID device) = ProductClass_DF f) \<and>
     (Online_DF f = None \<or> Online_DF f = Some (Online (Status device))) \<and>
     (\<forall>tag \<in> set (Tags_DF f). Tags device tag = Some True)"
  by (auto simp add: matchesFilter_def isIPInRange_def checkTags_iff hasTag_iff
      split: option.splits)

lemma filterDevices_acc:
  "filterDevices h flt devs acc =
     acc @ map snd (filter (\<lambda>(k, p). matchesFilter (h p) flt) devs)"
  by (induction devs arbitrary: acc) auto

text \<open>
  Claim C4. \<open>GetFilteredDevices\<close> returns, once each, the pointers of exactly those
  entries of the device map whose device matches the filter. A nil filter matches every
  device. A filter matches a device if and only if all of these hold: the filter's
  manufacturer is empty or equal to the device's, likewise the model name and the
  product class; the filter's online flag is nil or equal to the device's; every tag of
  the filter's list is set on the device. So an empty tag list leaves the four other
  criteria only, and the range of addresses never counts: the filter with any range, or
  none, put in its place matches the same devices, the range check being true of every
  address.
\<close>

theorem GetFilteredDevices_exact:
  "GetFilteredDevices flt c =
     map snd (filter (\<lambda>(k, p). matchesFilter (deviceHeap c p) flt) (devices c)) \<and>
   matchesFilter device None \<and>
   (matchesFilter device (Some f) \<longleftrightarrow>
     (Manufacturer_DF f = '''' \<or> Manufacturer (DeviceID device) = Manufacturer_DF f) \<and>
     (ModelName_DF f = '''' \<or> ModelName (DeviceID device) = ModelName_DF f) \<and>
     (ProductClass_DF f = '''' \<or> ProductClass (DeviceID device) = ProductClass_DF f) \<and>
     (Online_DF f = None \<or> Online_DF f = Some (Online (Status device))) \<and>
     (\<forall>tag \<in> set (Tags_DF f). Tags device tag = Some True)) \<and>
   (matchesFilter device (Some (f\<lparr>Tags_DF := []\<rparr>)) \<longleftrightarrow>
     (Manufacturer_DF f = '''' \<or> Manufacturer (DeviceID device) = Manufacturer_DF f) \<and>
     (ModelName_DF f = '''' \<or> ModelName (DeviceID device) = ModelName_DF f) \<and>
     (ProductClass_DF f = '''' \<or> ProductClass (DeviceID device) = ProductClass_DF f) \<and>
     (Online_DF f = None \<or> Online_DF f = Some (Online (Status device)))) \<and>
   matchesFilter device (Some (f\<lparr>IPRange := r\<rparr>)) = matchesFilter device (Some f) \<and>
   isIPInRange ip startIP endIP"
proof (intro conjI)
  show "GetFilteredDevices flt c =
     map snd (filter (\<lambda>(k, p). matchesFilter (deviceHeap c p) flt) (devices c))"
    by (simp add: GetFilteredDevices_def filterDevices_acc)
  show "matchesFilter device None"
    by (simp add: matchesFilter_def)
  show "matchesFilter device (Some f) \<longleftrightarrow>
     (Manufacturer_DF f = '''' \<or> Manufacturer (DeviceID device) = Manufacturer_DF f) \<and>
     (ModelName_DF f = '''' \<or> ModelName (DeviceID device) = ModelName_DF f) \<and>
     (ProductClass_DF f = '''' \<or> ProductClass (DeviceID device) = ProductClass_DF f) \<and>
     (Online_DF f = None \<or> Online_DF f = Some (Online (Status device))) \<and>
     (\<forall>tag \<in> set (Tags_DF f). Tags device tag = Some True)"
    by (rule matchesFilter_Some)
  show "matchesFilter device (Some (f\<lparr>Tags_DF := []\<rparr>)) \<longleftrightarrow>
     (Manufacturer_DF f = '''' \<or> Manufacturer (DeviceID device) = Manufacturer_DF f) \<and>
     (ModelName_DF f = '''' \<or> ModelName (DeviceID device) = ModelName_DF f) \<and>
     (ProductClass_DF f = '''' \<or> ProductClass (DeviceID device) = ProductClass_DF f) \<and>
     (Online_DF f = None \<or> Online_DF f = Some (Online (Status device)))"
    by (simp add: matchesFilter_Some)
  show "matchesFilter device (Some (f\<lparr>IPRange := r\<rparr>)) = matchesFilter device (Some f)"
    by (simp add: matchesFilter_Some)
  show "isIPInRange ip startIP endIP"
    by (simp add: isIPInRange_def)
qed

text \<open>
  On the example context: the manufacturer \<open>Acme\<close> selects the third device and \<open>acme\<close>
  none; a filter with the tag \<open>x\<close>, the online flag and a range of addresses that holds
  no device's address selects the third device; the offline flag selects the second;
  the nil filter selects all three.
\<close>

theorem GetFilteredDevices_exact_witness:
  "GetFilteredDevices (Some (zeroDeviceFilter\<lparr>Manufacturer_DF := ''Acme''\<rparr>)) testContext = [3] \<and>
   GetFilteredDevices (Some (zeroDeviceFilter\<lparr>Manufacturer_DF := ''acme''\<rparr>)) testContext = [] \<and>
   GetFilteredDevices
     (Some (zeroDeviceFilter\<lparr> Tags_DF := [''x''], Online_DF := Some True,
                               IPRange := Some \<lparr>StartIP = ''10.0.0.1'', EndIP = ''10.0.0.2''\<rparr> \<rparr>))
     testContext = [3] \<and>
   GetFilteredDevices (Some (zeroDeviceFilter\<lparr>Online_DF := Some False\<rparr>)) testContext = [2] \<and>
   GetFilteredDevices None testContext = [1, 2, 3]"
proof -
  note exact = GetFilteredDevices_exact [of _ testContext]
  note eval = testContext_facts testDevices_def testDevice1_def testDevice2_def testDevice3_def
    zeroDevice_def zeroDeviceID_def zeroDeviceFilter_def
  have acme: "GetFilteredDevices (Some (zeroDeviceFilter\<lparr>Manufacturer_DF := ''Acme''\<rparr>))
      testContext = [3]"
    using exact [of "Some (zeroDeviceFilter\<lparr>Manufacturer_DF := ''Acme''\<rparr>)"]
    by (simp add: matchesFilter_Some eval)
  have lower: "GetFilteredDevices (Some (zeroDeviceFilter\<lparr>Manufacturer_DF := ''acme''\<rparr>))
      testContext = []"
    using exact [of "Some (zeroDeviceFilter\<lparr>Manufacturer_DF := ''acme''\<rparr>)"]
    by (simp add: matchesFilter_Some eval)
  have tagged: "GetFilteredDevices
     (Some (zeroDeviceFilter\<lparr> Tags_DF := [''x''], Online_DF := Some True,
                               IPRange := Some \<lparr>StartIP = ''10.0.0.1'', EndIP = ''10.0.0.2''\<rparr> \<rparr>))
     testContext = [3]"
    using exact [of "Some (zeroDeviceFilter\<lparr> Tags_DF := [''x''], Online_DF := Some True,
                               IPRange := Some \<lparr>StartIP = ''10.0.0.1'', EndIP = ''10.0.0.2''\<rparr> \<rparr>)"]
    by (simp add: matchesFilter_Some eval)
  have offline: "GetFilteredDevices (Some (zeroDeviceFilter\<lparr>Online_DF := Some False\<rparr>))
      testContext = [2]"
    using exact [of "Some (zeroDeviceFilter\<lparr>Online_DF := Some False\<rparr>)"]
    by (simp add: matchesFilter_Some eval)
  have all: "GetFilteredDevices None testContext = [1, 2, 3]"
    using exact [of None]
    by (simp add: matchesFilter_def eval)
  from acme lower tagged offline all show ?thesis
    by simp
qed

subsection \<open>Acknowledging a fault that is not stored\<close>

text \<open>
  Claim C6. For every fault identifier that is absent from the store and every actor,
  \<open>AcknowledgeFault\<close> returns \<open>ErrFaultNotFound\<close> and the context it leaves is the one it
  found: the fault map, the fault objects and the time of the statistics cache (the
  invalidation state) are untouched.
\<close>

theorem AcknowledgeFault_not_found:
  "faultID \<notin> fst ` set (faults c) \<Longrightarrow>
     AcknowledgeFault now faultID acknowledgedBy c = (Some ErrFaultNotFound, c)"
  by (simp add: AcknowledgeFault_def map_of_absent)

theorem AcknowledgeFault_not_found_witness:
  "''missing-id'' \<notin> fst ` set (faults testContext) \<and>
   AcknowledgeFault testNow ''missing-id'' ''bob'' testContext =
     (Some ErrFaultNotFound, testContext)"
proof -
  have absent: "''missing-id'' \<notin> fst ` set (faults testContext)"
    by (simp add: test_defs)
  from AcknowledgeFault_not_found [OF absent] absent show ?thesis
    by simp
qed

subsection \<open>Acknowledging or resolving a fault twice\<close>

lemma GetFault_Some: "map_of (faults c) faultID = Some p \<Longrightarrow> GetFault faultID c = (Some p, True)"
  by (simp add: GetFault_def)

text \<open>
  The handlers of the producer package do what claim C5 asks: a fault that is
  acknowledged already is not acknowledged again, a fault that is resolved already is
  neither acknowledged nor resolved again; the request is answered with a bad-request
  status and the context is left as it is.
\<close>

lemma producer_AcknowledgeFault_rejects:
  assumes "map_of (faults c) faultID = Some p"
    and "Status_F (faultHeap c p) = FaultStatusAcknowledged \<or>
         Status_F (faultHeap c p) = FaultStatusResolved"
  shows "producer_AcknowledgeFault now faultID req c = (StatusBadRequest, c)"
  using assms
  by (auto simp add: producer_AcknowledgeFault_def GetFault_Some split: option.splits)

lemma producer_ResolveFault_rejects:
  assumes "map_of (faults c) faultID = Some p"
    and "Status_F (faultHeap c p) = FaultStatusResolved"
  shows "producer_ResolveFault now faultID req c = (StatusBadRequest, c)"
  using assms
  by (auto simp add: producer_ResolveFault_def GetFault_Some split: option.splits)

text \<open>
  The handlers of the web package pass every request with an identifier and a body to
  the context, and the context acknowledges or resolves every fault it finds, whatever
  its status.
\<close>

lemma AcknowledgeFault_found:
  "map_of (faults c) faultID = Some p \<Longrightarrow>
   AcknowledgeFault now faultID actor c =
     (None, c\<lparr> faultHeap := (faultHeap c)
                  (p := (faultHeap c p)\<lparr> Status_F := FaultStatusAcknowledged,
                                         AcknowledgedBy := actor,
                                         AcknowledgedAt := Some now \<rparr>),
               statsCacheTime := zeroTime \<rparr>)"
  by (simp add: AcknowledgeFault_def invalidateStatsCache_def)

lemma ResolveFault_found:
  "map_of (faults c) faultID = Some p \<Longrightarrow>
   ResolveFault now faultID actor c =
     (None, c\<lparr> faultHeap := (faultHeap c)
                  (p := (faultHeap c p)\<lparr> Status_F := FaultStatusResolved,
                                         ResolvedBy := actor,
                                         ResolvedAt := Some now \<rparr>),
               statsCacheTime := zeroTime \<rparr>)"
  by (simp add: ResolveFault_def invalidateStatsCache_def)

lemma handlers_AcknowledgeFault_accepts:
  "map_of (faults c) faultID = Some p \<Longrightarrow> faultID \<noteq> '''' \<Longrightarrow>
   handlers_AcknowledgeFault now faultID (Some actor) c =
     (StatusOK, snd (AcknowledgeFault now faultID actor c))"
  by (simp add: handlers_AcknowledgeFault_def AcknowledgeFault_found)

lemma handlers_ResolveFault_accepts:
  "map_of (faults c) faultID = Some p \<Longrightarrow> faultID \<noteq> '''' \<Longrightarrow>
   handlers_ResolveFault now faultID (Some actor) c =
     (StatusOK, snd (ResolveFault now faultID actor c))"
  by (simp add: handlers_ResolveFault_def ResolveFault_found)

text \<open>
  Claim C5 asks that \<open>AcknowledgeFault\<close> reject a fault that is acknowledged already and
  that \<open>ResolveFault\<close> reject one that is resolved already. The operations of the context
  do neither, and the handlers of the web package, which call them unguarded, answer
  such a request with success. Here the fault \<open>test-fault-1\<close> is acknowledged by alice; a
  second acknowledgement by bob returns no error and overwrites the actor and the time,
  where the handler of the producer package answers the same request with a bad-request
  status and changes nothing. The fault \<open>test-fault-2\<close> is resolved by alice; resolving it
  again by bob returns no error and overwrites the actor; and acknowledging it returns no
  error and takes it from \<open>resolved\<close> back to \<open>acknowledged\<close>.
\<close>

theorem AcknowledgeFault_twice_accepted:
  "Status_F (faultHeap (snd (AcknowledgeFault testNow ''test-fault-1'' ''alice'' testContext)) 1)
     = FaultStatusAcknowledged \<and>
   AcknowledgedBy (faultHeap (snd (AcknowledgeFault testNow ''test-fault-1'' ''alice'' testContext)) 1)
     = ''alice'' \<and>
   fst (AcknowledgeFault (testNow + Second) ''test-fault-1'' ''bob''
          (snd (AcknowledgeFault testNow ''test-fault-1'' ''alice'' testContext))) = None \<and>
   AcknowledgedBy (faultHeap (snd (AcknowledgeFault (testNow + Second) ''test-fault-1'' ''bob''
          (snd (AcknowledgeFault testNow ''test-fault-1'' ''alice'' testContext)))) 1) = ''bob'' \<and>
   AcknowledgedAt (faultHeap (snd (AcknowledgeFault (testNow + Second) ''test-fault-1'' ''bob''
          (snd (AcknowledgeFault testNow ''test-fault-1'' ''alice'' testContext)))) 1)
     = Some (testNow + Second) \<and>
   handlers_AcknowledgeFault (testNow + Second) ''test-fault-1'' (Some ''bob'')
       (snd (AcknowledgeFault testNow ''test-fault-1'' ''alice'' testContext)) =
     (StatusOK, snd (AcknowledgeFault (testNow + Second) ''test-fault-1'' ''bob''
                       (snd (AcknowledgeFault testNow ''test-fault-1'' ''alice'' testContext)))) \<and>
   producer_AcknowledgeFault (testNow + Second) ''test-fault-1'' (Some ''bob'')
       (snd (AcknowledgeFault testNow ''test-fault-1'' ''alice'' testContext)) =
     (StatusBadRequest, snd (AcknowledgeFault testNow ''test-fault-1'' ''alice'' testContext)) \<and>
   Status_F (faultHeap testContext 2) = FaultStatusResolved \<and>
   ResolvedBy (faultHeap testContext 2) = ''alice'' \<and>
   fst (ResolveFault testNow ''test-fault-2'' ''bob'' testContext) = None \<and>
   ResolvedBy (faultHeap (snd (ResolveFault testNow ''test-fault-2'' ''bob'' testContext)) 2)
     = ''bob'' \<and>
   handlers_ResolveFault testNow ''test-fault-2'' (Some ''bob'') testContext =
     (StatusOK, snd (ResolveFault testNow ''test-fault-2'' ''bob'' testContext)) \<and>
   producer_ResolveFault testNow ''test-fault-2'' (Some ''bob'') testContext =
     (StatusBadRequest, testContext) \<and>
   fst (AcknowledgeFault testNow ''test-fault-2'' ''bob'' testContext) = None \<and>
   Status_F (faultHeap (snd (AcknowledgeFault testNow ''test-fault-2'' ''bob'' testContext)) 2)
     = FaultStatusAcknowledged"
proof -
  let ?c1 = "snd (AcknowledgeFault testNow ''test-fault-1'' ''alice'' testContext)"
  let ?c2 = "snd (AcknowledgeFault (testNow + Second) ''test-fault-1'' ''bob'' ?c1)"
  have f1: "map_of (faults testContext) ''test-fault-1'' = Some 1"
    and f2: "map_of (faults testContext) ''test-fault-2'' = Some 2"
    by (simp_all add: testContext_facts)
  have f1': "map_of (faults ?c1) ''test-fault-1'' = Some 1"
    by (simp add: AcknowledgeFault_found [OF f1] testContext_facts)
  have ack1: "Status_F (faultHeap ?c1 1) = FaultStatusAcknowledged"
      "AcknowledgedBy (faultHeap ?c1 1) = ''alice''"
    by (simp_all add: AcknowledgeFault_found [OF f1])
  have ack2: "fst (AcknowledgeFault (testNow + Second) ''test-fault-1'' ''bob'' ?c1) = None"
      "AcknowledgedBy (faultHeap ?c2 1) = ''bob''"
      "AcknowledgedAt (faultHeap ?c2 1) = Some (testNow + Second)"
    by (simp_all add: AcknowledgeFault_found [OF f1'])
  have web1: "handlers_AcknowledgeFault (testNow + Second) ''test-fault-1'' (Some ''bob'') ?c1 =
      (StatusOK, ?c2)"
    using f1' by (rule handlers_AcknowledgeFault_accepts) simp
  have sbi1: "producer_AcknowledgeFault (testNow + Second) ''test-fault-1'' (Some ''bob'') ?c1 =
      (StatusBadRequest, ?c1)"
    using f1' ack1(1) by (simp add: producer_AcknowledgeFault_rejects)
  have res: "Status_F (faultHeap testContext 2) = FaultStatusResolved"
      "ResolvedBy (faultHeap testContext 2) = ''alice''"
    by (simp_all add: testContext_facts testFaults_def testFault2_def)
  have res2: "fst (ResolveFault testNow ''test-fault-2'' ''bob'' testContext) = None"
      "ResolvedBy (faultHeap (snd (ResolveFault testNow ''test-fault-2'' ''bob'' testContext)) 2)
         = ''bob''"
    by (simp_all add: ResolveFault_found [OF f2])
  have web2: "handlers_ResolveFault testNow ''test-fault-2'' (Some ''bob'') testContext =
      (StatusOK, snd (ResolveFault testNow ''test-fault-2'' ''bob'' testContext))"
    using f2 by (rule handlers_ResolveFault_accepts) simp
  have sbi2: "producer_ResolveFault testNow ''test-fault-2'' (Some ''bob'') testContext =
      (StatusBadRequest, testContext)"
    using f2 res(1) by (rule producer_ResolveFault_rejects)
  have reopened: "fst (AcknowledgeFault testNow ''test-fault-2'' ''bob'' testContext) = None"
      "Status_F (faultHeap (snd (AcknowledgeFault testNow ''test-fault-2'' ''bob'' testContext)) 2)
         = FaultStatusAcknowledged"
    by (simp_all add: AcknowledgeFault_found [OF f2])
  from ack1 ack2 web1 sbi1 res res2 web2 sbi2 reopened show ?thesis
    by blast
qed

subsection \<open>What the statistics count\<close>

text \<open>
  Claim C2. The snapshot that \<open>updateStatsCache\<close> stores, and that \<open>GetDeviceStats\<close>
  returns whenever the cache is not fresh, holds exact counts of the registry as it is:
  the total is the number of entries of the device map (the number of its keys, the keys
  being distinct); the online and the offline count are the numbers of devices whose
  flag is set and is not set; the vendor and the model histogram give, for every name,
  the number of devices whose manufacturer or model name is that name, the empty string
  counting as \<open>Unknown\<close>, and have no entry for a name that no device has; the active
  count is the number of faults whose status is \<open>active\<close> or \<open>acknowledged\<close>, and the
  critical count the number of those whose severity is \<open>critical\<close>.
\<close>

theorem updateStatsCache_counts:
  "(let c' = updateStatsCache now c;
        s = statsHeap c' (statsCache c');
        ds = map (deviceHeap c \<circ> snd) (devices c);
        fs = map (faultHeap c \<circ> snd) (faults c)
    in TotalDevices s = int (length (devices c)) \<and>
       (wellFormed c \<longrightarrow> TotalDevices s = int (card (fst ` set (devices c)))) \<and>
       OnlineDevices s = int (length (filter (\<lambda>d. Online (Status d)) ds)) \<and>
       OfflineDevices s = int (length (filter (\<lambda>d. \<not> Online (Status d)) ds)) \<and>
       (\<forall>v. DevicesByVendor s v =
          (let n = length (filter (\<lambda>d. (if Manufacturer (DeviceID d) = '''' then ''Unknown''
                                          else Manufacturer (DeviceID d)) = v) ds)
           in if n = 0 then None else Some (int n))) \<and>
       (\<forall>m. DevicesByModel s m =
          (let n = length (filter (\<lambda>d. (if ModelName (DeviceID d) = '''' then ''Unknown''
                                          else ModelName (DeviceID d)) = m) ds)
           in if n = 0 then None else Some (int n))) \<and>
       ActiveFaults s =
         int (length (filter (\<lambda>f. Status_F f = ''active'' \<or> Status_F f = ''acknowledged'') fs)) \<and>
       CriticalFaults s =
         int (length (filter (\<lambda>f. (Status_F f = ''active'' \<or> Status_F f = ''acknowledged'')
                                   \<and> Severity f = ''critical'') fs))) \<and>
   (\<not> Since now0 (statsCacheTime c) < Minute \<longrightarrow>
      GetDeviceStats now0 now c = (statsCache (updateStatsCache now c), updateStatsCache now c))"
proof -
  let ?s = "newStats c"
  let ?ds = "map (deviceHeap c \<circ> snd) (devices c)"
  let ?fs = "map (faultHeap c \<circ> snd) (faults c)"
  have total: "TotalDevices ?s = int (length (devices c))"
    by (rule newStats_fields)
  have card: "wellFormed c \<longrightarrow> TotalDevices ?s = int (card (fst ` set (devices c)))"
  proof
    assume "wellFormed c"
    then have "distinct (map fst (devices c))"
      by (simp add: wellFormed_def)
    then have "card (set (map fst (devices c))) = length (map fst (devices c))"
      by (rule distinct_card)
    then show "TotalDevices ?s = int (card (fst ` set (devices c)))"
      by (simp add: total)
  qed
  have online: "OnlineDevices ?s = int (length (filter (\<lambda>d. Online (Status d)) ?ds))"
    by (rule newStats_fields)
  have offline: "OfflineDevices ?s = int (length (filter (\<lambda>d. \<not> Online (Status d)) ?ds))"
    by (rule newStats_fields)
  have vendor: "DevicesByVendor ?s v =
      (let n = length (filter (\<lambda>d. (if Manufacturer (DeviceID d) = '''' then ''Unknown''
                                      else Manufacturer (DeviceID d)) = v) ?ds)
       in if n = 0 then None else Some (int n))" for v
    by (simp only: newStats_fields increments_empty length_filter_map)
  have model: "DevicesByModel ?s m =
      (let n = length (filter (\<lambda>d. (if ModelName (DeviceID d) = '''' then ''Unknown''
                                      else ModelName (DeviceID d)) = m) ?ds)
       in if n = 0 then None else Some (int n))" for m
    by (simp only: newStats_fields increments_empty length_filter_map)
  have active: "ActiveFaults ?s =
      int (length (filter (\<lambda>f. Status_F f = ''active'' \<or> Status_F f = ''acknowledged'') ?fs))"
    by (simp only: newStats_fields FaultStatusActive_def FaultStatusAcknowledged_def)
  have critical: "CriticalFaults ?s =
      int (length (filter (\<lambda>f. (Status_F f = ''active'' \<or> Status_F f = ''acknowledged'')
                                \<and> Severity f = ''critical'') ?fs))"
    by (simp only: newStats_fields FaultStatusActive_def FaultStatusAcknowledged_def
        SeverityCritical_def)
  have stale: "\<not> Since now0 (statsCacheTime c) < Minute \<longrightarrow>
      GetDeviceStats now0 now c = (statsCache (updateStatsCache now c), updateStatsCache now c)"
    by (simp add: GetDeviceStats_stale)
  from total card online offline vendor model active critical stale show ?thesis
    unfolding Let_def snapshot_updateStatsCache by blast
qed

text \<open>
  The scenario of the specification: three devices (two online, one offline) and two
  faults (one critical and active, one minor and resolved).
\<close>

theorem updateStatsCache_counts_witness:
  "wellFormed testContext \<and>
   \<not> Since testNow (statsCacheTime testContext) < Minute \<and>
   (let r = GetDeviceStats testNow testNow testContext;
        s = statsHeap (snd r) (fst r)
    in TotalDevices s = 3 \<and> OnlineDevices s = 2 \<and> OfflineDevices s = 1 \<and>
       ActiveFaults s = 1 \<and> CriticalFaults s = 1 \<and>
       DevicesByVendor s ''TestVendor'' = Some 1 \<and>
       DevicesByVendor s ''Unknown'' = Some 1 \<and>
       DevicesByVendor s '''' = None \<and>
       DevicesByModel s ''TestModel-A'' = Some 2)"
proof -
  let ?c' = "updateStatsCache testNow testContext"
  let ?s = "statsHeap ?c' (statsCache ?c')"
  let ?ds = "map (deviceHeap testContext \<circ> snd) (devices testContext)"
  let ?fs = "map (faultHeap testContext \<circ> snd) (faults testContext)"
  have wf: "wellFormed testContext"
    by (rule testContext_facts)
  have stale: "\<not> Since testNow (statsCacheTime testContext) < Minute"
    by (simp add: testContext_facts Since_zeroTime testNow_late)
  have ds: "?ds = [testDevice1, testDevice2, testDevice3]"
    by (simp add: testContext_facts testDevices_def)
  have fs: "?fs = [testFault1, testFault2]"
    by (simp add: testContext_facts testFaults_def)
  note counts = updateStatsCache_counts [of testNow testContext testNow, unfolded Let_def]
  from counts stale
  have get: "GetDeviceStats testNow testNow testContext = (statsCache ?c', ?c')"
    by blast
  from counts wf have "TotalDevices ?s = int (card (fst ` set (devices testContext)))"
    by blast
  then have total: "TotalDevices ?s = 3"
    by (simp add: testContext_facts)
  from counts have "OnlineDevices ?s = int (length (filter (\<lambda>d. Online (Status d)) ?ds))"
    by blast
  then have online: "OnlineDevices ?s = 2"
    unfolding ds by (simp add: testDevice1_def testDevice2_def testDevice3_def zeroDevice_def)
  from counts have "OfflineDevices ?s = int (length (filter (\<lambda>d. \<not> Online (Status d)) ?ds))"
    by blast
  then have offline: "OfflineDevices ?s = 1"
    unfolding ds by (simp add: testDevice1_def testDevice2_def testDevice3_def zeroDevice_def)
  from counts have "ActiveFaults ?s =
      int (length (filter (\<lambda>f. Status_F f = ''active'' \<or> Status_F f = ''acknowledged'') ?fs))"
    by blast
  then have active: "ActiveFaults ?s = 1"
    unfolding fs by (simp add: testFault1_def testFault2_def zeroFault_def
        FaultStatusActive_def FaultStatusResolved_def)
  from counts have "CriticalFaults ?s =
      int (length (filter (\<lambda>f. (Status_F f = ''active'' \<or> Status_F f = ''acknowledged'')
                                \<and> Severity f = ''critical'') ?fs))"
    by blast
  then have critical: "CriticalFaults ?s = 1"
    unfolding fs by (simp add: testFault1_def testFault2_def zeroFault_def
        FaultStatusActive_def FaultStatusResolved_def SeverityCritical_def SeverityMinor_def)
  from counts have vendor: "DevicesByVendor ?s v =
      (if length (filter (\<lambda>d. (if Manufacturer (DeviceID d) = '''' then ''Unknown''
                                  else Manufacturer (DeviceID d)) = v) ?ds) = 0 then None
       else Some (int (length (filter (\<lambda>d. (if Manufacturer (DeviceID d) = '''' then ''Unknown''
                                  else Manufacturer (DeviceID d)) = v) ?ds))))" for v
    by blast
  have vendors: "DevicesByVendor ?s ''TestVendor'' = Some 1 \<and>
      DevicesByVendor ?s ''Unknown'' = Some 1 \<and> DevicesByVendor ?s '''' = None"
    unfolding vendor ds
    by (simp add: testDevice1_def testDevice2_def testDevice3_def zeroDevice_def zeroDeviceID_def)
  from counts have model: "DevicesByModel ?s m =
      (if length (filter (\<lambda>d. (if ModelName (DeviceID d) = '''' then ''Unknown''
                                  else ModelName (DeviceID d)) = m) ?ds) = 0 then None
       else Some (int (length (filter (\<lambda>d. (if ModelName (DeviceID d) = '''' then ''Unknown''
                                  else ModelName (DeviceID d)) = m) ?ds))))" for m
    by blast
  have models: "DevicesByModel ?s ''TestModel-A'' = Some 2"
    unfolding model ds
    by (simp add: testDevice1_def testDevice2_def testDevice3_def zeroDevice_def zeroDeviceID_def)
  from wf stale total online offline active critical vendors models show ?thesis
    unfolding Let_def get by simp
qed

subsection \<open>Invariants of a snapshot\<close>

text \<open>
  Claim C10. In every snapshot that \<open>updateStatsCache\<close> stores, the total is the sum of
  the online and the offline count; each histogram has finitely many entries and its
  values sum to the total; and the critical count lies between 0 and the active count.
\<close>

theorem updateStatsCache_invariants:
  "(let c' = updateStatsCache now c;
        s = statsHeap c' (statsCache c')
    in TotalDevices s = OnlineDevices s + OfflineDevices s \<and>
       finite (dom (DevicesByVendor s)) \<and>
       (\<Sum>v\<in>dom (DevicesByVendor s). the (DevicesByVendor s v)) = TotalDevices s \<and>
       finite (dom (DevicesByModel s)) \<and>
       (\<Sum>m\<in>dom (DevicesByModel s). the (DevicesByModel s m)) = TotalDevices s \<and>
       0 \<le> CriticalFaults s \<and>
       CriticalFaults s \<le> ActiveFaults s)"
proof -
  let ?s = "newStats c"
  let ?ds = "map (deviceHeap c \<circ> snd) (devices c)"
  have "length (filter (\<lambda>d. Online (Status d)) ?ds) +
        length (filter (\<lambda>d. \<not> Online (Status d)) ?ds) = length ?ds"
    by (rule sum_length_filter_compl)
  then have "int (length (filter (\<lambda>d. Online (Status d)) ?ds)) +
        int (length (filter (\<lambda>d. \<not> Online (Status d)) ?ds)) = int (length (devices c))"
    by (simp only: of_nat_add [symmetric] length_map)
  then have total: "TotalDevices ?s = OnlineDevices ?s + OfflineDevices ?s"
    by (simp only: newStats_fields)
  have fin_vendor: "finite (dom (DevicesByVendor ?s))"
    by (simp add: newStats_fields finite_dom_increments)
  have sum_vendor: "(\<Sum>v\<in>dom (DevicesByVendor ?s). the (DevicesByVendor ?s v)) = TotalDevices ?s"
    by (simp add: newStats_fields increments_sum)
  have fin_model: "finite (dom (DevicesByModel ?s))"
    by (simp add: newStats_fields finite_dom_increments)
  have sum_model: "(\<Sum>m\<in>dom (DevicesByModel ?s). the (DevicesByModel ?s m)) = TotalDevices ?s"
    by (simp add: newStats_fields increments_sum)
  have nonneg: "0 \<le> CriticalFaults ?s"
    by (simp only: newStats_fields of_nat_0_le_iff)
  have le: "CriticalFaults ?s \<le> ActiveFaults ?s"
    by (simp only: newStats_fields of_nat_le_iff length_filter_conj_le)
  from total fin_vendor sum_vendor fin_model sum_model nonneg le show ?thesis
    unfolding Let_def snapshot_updateStatsCache by blast
qed

theorem updateStatsCache_invariants_witness:
  "(let c' = updateStatsCache testNow testContext;
        s = statsHeap c' (statsCache c')
    in TotalDevices s = 3 \<and>
       OnlineDevices s + OfflineDevices s = 3 \<and>
       (\<Sum>v\<in>dom (DevicesByVendor s). the (DevicesByVendor s v)) = 3 \<and>
       (\<Sum>m\<in>dom (DevicesByModel s). the (DevicesByModel s m)) = 3 \<and>
       CriticalFaults s \<le> ActiveFaults s)"
proof -
  let ?c' = "updateStatsCache testNow testContext"
  let ?s = "statsHeap ?c' (statsCache ?c')"
  have total: "TotalDevices ?s = 3"
    by (simp add: snapshot_updateStatsCache newStats_fields testContext_facts)
  from updateStatsCache_invariants [of testNow testContext, unfolded Let_def] total
  show ?thesis
    unfolding Let_def by simp
qed

subsection \<open>Mutations and the cache\<close>

text \<open>How a count over the entries of a map moves with the map and with the heap.\<close>

lemma update_absent: "k \<notin> fst ` set al \<Longrightarrow> AList.update k v al = al @ [(k, v)]"
  by (induction al) auto

lemma length_delete_distinct_nat:
  "distinct (map fst al) \<Longrightarrow>
   length (AList.delete k al) + (if k \<in> fst ` set al then 1 else 0) = length al"
proof (induction al)
  case Nil
  show ?case by simp
next
  case (Cons e al)
  obtain k' v where e: "e = (k', v)"
    by (cases e)
  from Cons.prems have d: "distinct (map fst al)" and notin: "k' \<notin> fst ` set al"
    by (simp_all add: e)
  show ?case
  proof (cases "k = k'")
    case True
    with notin have "AList.delete k al = al"
      by simp
    with True show ?thesis
      by (simp add: e)
  next
    case False
    with Cons.IH [OF d] show ?thesis
      by (simp add: e)
  qed
qed

lemma length_delete_distinct:
  "distinct (map fst al) \<Longrightarrow>
   int (length (AList.delete k al)) = int (length al) - (if k \<in> fst ` set al then 1 else 0)"
  using length_delete_distinct_nat [of al k] by (simp split: if_splits)

lemma count_delete_distinct:
  "distinct (map fst al) \<Longrightarrow> map_of al k = Some p \<Longrightarrow>
   int (length (filter P (map (h \<circ> snd) (AList.delete k al)))) =
     int (length (filter P (map (h \<circ> snd) al))) - (if P (h p) then 1 else 0)"
proof (induction al)
  case Nil
  then show ?case by simp
next
  case (Cons e al)
  obtain k' v where e: "e = (k', v)"
    by (cases e)
  from Cons.prems(1) have d: "distinct (map fst al)" and notin: "k' \<notin> fst ` set al"
    by (simp_all add: e)
  show ?case
  proof (cases "k = k'")
    case True
    with Cons.prems(2) have "v = p"
      by (simp add: e)
    moreover from True notin have "AList.delete k al = al"
      by simp
    ultimately show ?thesis
      using True by (simp add: e)
  next
    case False
    with Cons.prems(2) have "map_of al k = Some p"
      by (simp add: e)
    from Cons.IH [OF d this] False show ?thesis
      by (auto simp add: e split: if_splits)
  qed
qed

lemma count_append_entry:
  "int (length (filter P (map (h \<circ> snd) (al @ [(k, p)])))) =
     int (length (filter P (map (h \<circ> snd) al))) + (if P (h p) then 1 else 0)"
  by simp

lemma count_heap_update:
  "int (length (filter P (map (h(p := x) \<circ> snd) al))) =
     int (length (filter P (map (h \<circ> snd) al))) +
     int (length (filter (\<lambda>e. snd e = p) al)) *
       ((if P x then 1 else 0) - (if P (h p) then 1 else 0))"
  by (induction al) (auto simp add: algebra_simps)

lemma newStats_same_devices:
  assumes "devices c' = devices c" and "deviceHeap c' = deviceHeap c"
  shows "TotalDevices (newStats c') = TotalDevices (newStats c) \<and>
         OnlineDevices (newStats c') = OnlineDevices (newStats c) \<and>
         OfflineDevices (newStats c') = OfflineDevices (newStats c) \<and>
         DevicesByVendor (newStats c') = DevicesByVendor (newStats c) \<and>
         DevicesByModel (newStats c') = DevicesByModel (newStats c)"
  by (simp only: newStats_fields assms)

lemma newStats_same_faults:
  assumes "faults c' = faults c" and "faultHeap c' = faultHeap c"
  shows "ActiveFaults (newStats c') = ActiveFaults (newStats c) \<and>
         CriticalFaults (newStats c') = CriticalFaults (newStats c)"
  by (simp only: newStats_fields assms)

text \<open>The registry and its statistics after each of the six operations.\<close>

lemma AddDevice_statistics:
  assumes "AddDevice (Some p) c = Inr c'"
  shows "map_of (devices c') = (map_of (devices c))(ID (deviceHeap c p) \<mapsto> p) \<and>
         faults c' = faults c \<and> deviceHeap c' = deviceHeap c \<and> faultHeap c' = faultHeap c \<and>
         TotalDevices (newStats c') =
           TotalDevices (newStats c) +
             (if ID (deviceHeap c p) \<in> fst ` set (devices c) then 0 else 1) \<and>
         (ID (deviceHeap c p) \<notin> fst ` set (devices c) \<longrightarrow>
            OnlineDevices (newStats c') =
              OnlineDevices (newStats c) + (if Online (Status (deviceHeap c p)) then 1 else 0) \<and>
            OfflineDevices (newStats c') =
              OfflineDevices (newStats c) + (if Online (Status (deviceHeap c p)) then 0 else 1)) \<and>
         ActiveFaults (newStats c') = ActiveFaults (newStats c) \<and>
         CriticalFaults (newStats c') = CriticalFaults (newStats c)"
proof -
  let ?k = "ID (deviceHeap c p)"
  from assms have c': "c' = c\<lparr>devices := AList.update ?k p (devices c), statsCacheTime := zeroTime\<rparr>"
    by (simp add: AddDevice_Some)
  have devs: "devices c' = AList.update ?k p (devices c)"
    and rest: "faults c' = faults c" "deviceHeap c' = deviceHeap c" "faultHeap c' = faultHeap c"
    by (simp_all add: c')
  have lookup: "map_of (devices c') = (map_of (devices c))(?k \<mapsto> p)"
    by (simp add: devs update_conv')
  have total: "TotalDevices (newStats c') =
      TotalDevices (newStats c) + (if ?k \<in> fst ` set (devices c) then 0 else 1)"
    by (simp add: newStats_fields devs length_update)
  have fresh: "?k \<notin> fst ` set (devices c) \<longrightarrow>
      OnlineDevices (newStats c') =
        OnlineDevices (newStats c) + (if Online (Status (deviceHeap c p)) then 1 else 0) \<and>
      OfflineDevices (newStats c') =
        OfflineDevices (newStats c) + (if Online (Status (deviceHeap c p)) then 0 else 1)"
  proof
    assume "?k \<notin> fst ` set (devices c)"
    then have "devices c' = devices c @ [(?k, p)]"
      by (simp add: devs update_absent)
    then show "OnlineDevices (newStats c') =
        OnlineDevices (newStats c) + (if Online (Status (deviceHeap c p)) then 1 else 0) \<and>
      OfflineDevices (newStats c') =
        OfflineDevices (newStats c) + (if Online (Status (deviceHeap c p)) then 0 else 1)"
      by (simp only: newStats_fields rest count_append_entry) simp
  qed
  from lookup rest total fresh newStats_same_faults [OF rest(1) rest(3)] show ?thesis
    by blast
qed

lemma RemoveDevice_statistics:
  assumes "c' = RemoveDevice deviceID c"
  shows "map_of (devices c') = (map_of (devices c))(deviceID := None) \<and>
         faults c' = faults c \<and> deviceHeap c' = deviceHeap c \<and> faultHeap c' = faultHeap c \<and>
         (wellFormed c \<longrightarrow>
            TotalDevices (newStats c') =
              TotalDevices (newStats c) - (if deviceID \<in> fst ` set (devices c) then 1 else 0)) \<and>
         (\<forall>p. wellFormed c \<and> map_of (devices c) deviceID = Some p \<longrightarrow>
            OnlineDevices (newStats c') =
              OnlineDevices (newStats c) - (if Online (Status (deviceHeap c p)) then 1 else 0) \<and>
            OfflineDevices (newStats c') =
              OfflineDevices (newStats c) - (if Online (Status (deviceHeap c p)) then 0 else 1)) \<and>
         ActiveFaults (newStats c') = ActiveFaults (newStats c) \<and>
         CriticalFaults (newStats c') = CriticalFaults (newStats c)"
proof -
  have devs: "devices c' = AList.delete deviceID (devices c)"
    and rest: "faults c' = faults c" "deviceHeap c' = deviceHeap c" "faultHeap c' = faultHeap c"
    by (simp_all add: assms RemoveDevice_def invalidateStatsCache_def)
  have lookup: "map_of (devices c') = (map_of (devices c))(deviceID := None)"
    by (simp add: devs delete_conv')
  have total: "wellFormed c \<longrightarrow>
      TotalDevices (newStats c') =
        TotalDevices (newStats c) - (if deviceID \<in> fst ` set (devices c) then 1 else 0)"
  proof
    assume "wellFormed c"
    then have "distinct (map fst (devices c))"
      by (simp add: wellFormed_def)
    from length_delete_distinct [OF this, of deviceID]
    show "TotalDevices (newStats c') =
        TotalDevices (newStats c) - (if deviceID \<in> fst ` set (devices c) then 1 else 0)"
      by (simp only: newStats_fields devs)
  qed
  have status: "\<forall>p. wellFormed c \<and> map_of (devices c) deviceID = Some p \<longrightarrow>
      OnlineDevices (newStats c') =
        OnlineDevices (newStats c) - (if Online (Status (deviceHeap c p)) then 1 else 0) \<and>
      OfflineDevices (newStats c') =
        OfflineDevices (newStats c) - (if Online (Status (deviceHeap c p)) then 0 else 1)"
  proof (intro allI impI, elim conjE)
    fix p
    assume "wellFormed c" and p: "map_of (devices c) deviceID = Some p"
    then have d: "distinct (map fst (devices c))"
      by (simp add: wellFormed_def)
    show "OnlineDevices (newStats c') =
        OnlineDevices (newStats c) - (if Online (Status (deviceHeap c p)) then 1 else 0) \<and>
      OfflineDevices (newStats c') =
        OfflineDevices (newStats c) - (if Online (Status (deviceHeap c p)) then 0 else 1)"
      by (simp only: newStats_fields devs rest count_delete_distinct [OF d p]) simp
  qed
  from lookup rest total status newStats_same_faults [OF rest(1) rest(3)] show ?thesis
    by blast
qed

lemma UpdateDeviceStatus_statistics:
  assumes "deviceID \<in> fst ` set (devices c)" and "c' = UpdateDeviceStatus t deviceID online c"
  shows "\<exists>p. map_of (devices c) deviceID = Some p \<and>
           deviceHeap c' =
             (deviceHeap c)
               (p := (deviceHeap c p)
                  \<lparr>Status := (Status (deviceHeap c p))
                     \<lparr>Online := online, LastSeen := t,
                      ConnectionStatus := (if online then ''connected'' else ''disconnected'')\<rparr>\<rparr>) \<and>
           devices c' = devices c \<and> faults c' = faults c \<and> faultHeap c' = faultHeap c \<and>
           TotalDevices (newStats c') = TotalDevices (newStats c) \<and>
           OnlineDevices (newStats c') =
             OnlineDevices (newStats c) +
               int (length (filter (\<lambda>e. snd e = p) (devices c))) *
                 ((if online then 1 else 0) - (if Online (Status (deviceHeap c p)) then 1 else 0)) \<and>
           OfflineDevices (newStats c') =
             OfflineDevices (newStats c) -
               int (length (filter (\<lambda>e. snd e = p) (devices c))) *
                 ((if online then 1 else 0) - (if Online (Status (deviceHeap c p)) then 1 else 0)) \<and>
           ActiveFaults (newStats c') = ActiveFaults (newStats c) \<and>
           CriticalFaults (newStats c') = CriticalFaults (newStats c)"
proof -
  from assms(1) obtain p where p: "map_of (devices c) deviceID = Some p"
    by (cases "map_of (devices c) deviceID") (auto simp add: map_of_eq_None_iff)
  let ?d = "(deviceHeap c p)
      \<lparr>Status := (Status (deviceHeap c p))
         \<lparr>Online := online, LastSeen := t,
          ConnectionStatus := (if online then ''connected'' else ''disconnected'')\<rparr>\<rparr>"
  have heap: "deviceHeap c' = (deviceHeap c)(p := ?d)"
    and rest: "devices c' = devices c" "faults c' = faults c" "faultHeap c' = faultHeap c"
    by (simp_all add: assms(2) UpdateDeviceStatus_def p invalidateStatsCache_def Let_def)
  have total: "TotalDevices (newStats c') = TotalDevices (newStats c)"
    by (simp only: newStats_fields rest)
  have online: "OnlineDevices (newStats c') =
      OnlineDevices (newStats c) +
        int (length (filter (\<lambda>e. snd e = p) (devices c))) *
          ((if online then 1 else 0) - (if Online (Status (deviceHeap c p)) then 1 else 0))"
    by (simp only: newStats_fields rest heap count_heap_update) simp
  have offline: "OfflineDevices (newStats c') =
      OfflineDevices (newStats c) -
        int (length (filter (\<lambda>e. snd e = p) (devices c))) *
          ((if online then 1 else 0) - (if Online (Status (deviceHeap c p)) then 1 else 0))"
    by (simp only: newStats_fields rest heap count_heap_update) (simp add: algebra_simps)
  from p heap rest total online offline newStats_same_faults [OF rest(2) rest(3)]
  show ?thesis
    by blast
qed

lemma AddFault_statistics:
  assumes "AddFault (Some q) c = Inr c'"
  shows "map_of (faults c') = (map_of (faults c))(ID_F (faultHeap c q) \<mapsto> q) \<and>
         devices c' = devices c \<and> deviceHeap c' = deviceHeap c \<and> faultHeap c' = faultHeap c \<and>
         (ID_F (faultHeap c q) \<notin> fst ` set (faults c) \<longrightarrow>
            ActiveFaults (newStats c') =
              ActiveFaults (newStats c) +
                (if Status_F (faultHeap c q) = ''active'' \<or>
                    Status_F (faultHeap c q) = ''acknowledged'' then 1 else 0) \<and>
            CriticalFaults (newStats c') =
              CriticalFaults (newStats c) +
                (if (Status_F (faultHeap c q) = ''active'' \<or>
                     Status_F (faultHeap c q) = ''acknowledged'') \<and>
                    Severity (faultHeap c q) = ''critical'' then 1 else 0)) \<and>
         TotalDevices (newStats c') = TotalDevices (newStats c) \<and>
         OnlineDevices (newStats c') = OnlineDevices (newStats c) \<and>
         OfflineDevices (newStats c') = OfflineDevices (newStats c)"
proof -
  let ?k = "ID_F (faultHeap c q)"
  from assms have c': "c' = c\<lparr>faults := AList.update ?k q (faults c), statsCacheTime := zeroTime\<rparr>"
    by (simp add: AddFault_Some)
  have flts: "faults c' = AList.update ?k q (faults c)"
    and rest: "devices c' = devices c" "deviceHeap c' = deviceHeap c" "faultHeap c' = faultHeap c"
    by (simp_all add: c')
  have lookup: "map_of (faults c') = (map_of (faults c))(?k \<mapsto> q)"
    by (simp add: flts update_conv')
  have fresh: "?k \<notin> fst ` set (faults c) \<longrightarrow>
      ActiveFaults (newStats c') =
        ActiveFaults (newStats c) +
          (if Status_F (faultHeap c q) = ''active'' \<or>
              Status_F (faultHeap c q) = ''acknowledged'' then 1 else 0) \<and>
      CriticalFaults (newStats c') =
        CriticalFaults (newStats c) +
          (if (Status_F (faultHeap c q) = ''active'' \<or>
               Status_F (faultHeap c q) = ''acknowledged'') \<and>
              Severity (faultHeap c q) = ''critical'' then 1 else 0)"
  proof
    assume "?k \<notin> fst ` set (faults c)"
    then have "faults c' = faults c @ [(?k, q)]"
      by (simp add: flts update_absent)
    then show "ActiveFaults (newStats c') =
        ActiveFaults (newStats c) +
          (if Status_F (faultHeap c q) = ''active'' \<or>
              Status_F (faultHeap c q) = ''acknowledged'' then 1 else 0) \<and>
      CriticalFaults (newStats c') =
        CriticalFaults (newStats c) +
          (if (Status_F (faultHeap c q) = ''active'' \<or>
               Status_F (faultHeap c q) = ''acknowledged'') \<and>
              Severity (faultHeap c q) = ''critical'' then 1 else 0)"
      by (simp only: newStats_fields rest count_append_entry)
        (simp add: FaultStatusActive_def FaultStatusAcknowledged_def SeverityCritical_def)
  qed
  from lookup rest fresh newStats_same_devices [OF rest(1) rest(2)] show ?thesis
    by blast
qed

lemma AcknowledgeFault_statistics:
  assumes "AcknowledgeFault t faultID actor c = (None, c')"
  shows "\<exists>p. map_of (faults c) faultID = Some p \<and>
           faultHeap c' =
             (faultHeap c)
               (p := (faultHeap c p)
                  \<lparr>Status_F := ''acknowledged'', AcknowledgedBy := actor,
                   AcknowledgedAt := Some t\<rparr>) \<and>
           faults c' = faults c \<and> devices c' = devices c \<and> deviceHeap c' = deviceHeap c \<and>
           ActiveFaults (newStats c') =
             ActiveFaults (newStats c) +
               (if Status_F (faultHeap c p) = ''active'' \<or>
                   Status_F (faultHeap c p) = ''acknowledged'' then 0
                else int (length (filter (\<lambda>e. snd e = p) (faults c)))) \<and>
           CriticalFaults (newStats c') =
             CriticalFaults (newStats c) +
               (if Status_F (faultHeap c p) = ''active'' \<or>
                   Status_F (faultHeap c p) = ''acknowledged'' \<or>
                   Severity (faultHeap c p) \<noteq> ''critical'' then 0
                else int (length (filter (\<lambda>e. snd e = p) (faults c)))) \<and>
           TotalDevices (newStats c') = TotalDevices (newStats c) \<and>
           OnlineDevices (newStats c') = OnlineDevices (newStats c) \<and>
           OfflineDevices (newStats c') = OfflineDevices (newStats c)"
proof -
  from assms obtain p where p: "map_of (faults c) faultID = Some p"
    by (cases "map_of (faults c) faultID") (auto simp add: AcknowledgeFault_def)
  let ?f = "(faultHeap c p)
      \<lparr>Status_F := ''acknowledged'', AcknowledgedBy := actor, AcknowledgedAt := Some t\<rparr>"
  from assms p have c': "c' = c\<lparr>faultHeap := (faultHeap c)(p := ?f), statsCacheTime := zeroTime\<rparr>"
    by (simp add: AcknowledgeFault_found FaultStatusAcknowledged_def)
  have heap: "faultHeap c' = (faultHeap c)(p := ?f)"
    and rest: "faults c' = faults c" "devices c' = devices c" "deviceHeap c' = deviceHeap c"
    by (simp_all add: c')
  have active: "ActiveFaults (newStats c') =
      ActiveFaults (newStats c) +
        (if Status_F (faultHeap c p) = ''active'' \<or>
            Status_F (faultHeap c p) = ''acknowledged'' then 0
         else int (length (filter (\<lambda>e. snd e = p) (faults c))))"
    by (simp only: newStats_fields rest heap count_heap_update)
      (simp add: FaultStatusActive_def FaultStatusAcknowledged_def)
  have critical: "CriticalFaults (newStats c') =
      CriticalFaults (newStats c) +
        (if Status_F (faultHeap c p) = ''active'' \<or>
            Status_F (faultHeap c p) = ''acknowledged'' \<or>
            Severity (faultHeap c p) \<noteq> ''critical'' then 0
         else int (length (filter (\<lambda>e. snd e = p) (faults c))))"
    by (simp only: newStats_fields rest heap count_heap_update)
      (simp add: FaultStatusActive_def FaultStatusAcknowledged_def SeverityCritical_def)
  from p heap rest active critical newStats_same_devices [OF rest(2) rest(3)] show ?thesis
    by blast
qed

lemma ResolveFault_statistics:
  assumes "ResolveFault t faultID actor c = (None, c')"
  shows "\<exists>p. map_of (faults c) faultID = Some p \<and>
           faultHeap c' =
             (faultHeap c)
               (p := (faultHeap c p)
                  \<lparr>Status_F := ''resolved'', ResolvedBy := actor, ResolvedAt := Some t\<rparr>) \<and>
           faults c' = faults c \<and> devices c' = devices c \<and> deviceHeap c' = deviceHeap c \<and>
           ActiveFaults (newStats c') =
             ActiveFaults (newStats c) -
               (if Status_F (faultHeap c p) = ''active'' \<or>
                   Status_F (faultHeap c p) = ''acknowledged''
                then int (length (filter (\<lambda>e. snd e = p) (faults c))) else 0) \<and>
           CriticalFaults (newStats c') =
             CriticalFaults (newStats c) -
               (if (Status_F (faultHeap c p) = ''active'' \<or>
                    Status_F (faultHeap c p) = ''acknowledged'') \<and>
                   Severity (faultHeap c p) = ''critical''
                then int (length (filter (\<lambda>e. snd e = p) (faults c))) else 0) \<and>
           TotalDevices (newStats c') = TotalDevices (newStats c) \<and>
           OnlineDevices (newStats c') = OnlineDevices (newStats c) \<and>
           OfflineDevices (newStats c') = OfflineDevices (newStats c)"
proof -
  from assms obtain p where p: "map_of (faults c) faultID = Some p"
    by (cases "map_of (faults c) faultID") (auto simp add: ResolveFault_def)
  let ?f = "(faultHeap c p)
      \<lparr>Status_F := ''resolved'', ResolvedBy := actor, ResolvedAt := Some t\<rparr>"
  from assms p have c': "c' = c\<lparr>faultHeap := (faultHeap c)(p := ?f), statsCacheTime := zeroTime\<rparr>"
    by (simp add: ResolveFault_found FaultStatusResolved_def)
  have heap: "faultHeap c' = (faultHeap c)(p := ?f)"
    and rest: "faults c' = faults c" "devices c' = devices c" "deviceHeap c' = deviceHeap c"
    by (simp_all add: c')
  have active: "ActiveFaults (newStats c') =
      ActiveFaults (newStats c) -
        (if Status_F (faultHeap c p) = ''active'' \<or>
            Status_F (faultHeap c p) = ''acknowledged''
         then int (length (filter (\<lambda>e. snd e = p) (faults c))) else 0)"
    by (simp only: newStats_fields rest heap count_heap_update)
      (simp add: FaultStatusActive_def FaultStatusAcknowledged_def)
  have critical: "CriticalFaults (newStats c') =
      CriticalFaults (newStats c) -
        (if (Status_F (faultHeap c p) = ''active'' \<or>
             Status_F (faultHeap c p) = ''acknowledged'') \<and>
            Severity (faultHeap c p) = ''critical''
         then int (length (filter (\<lambda>e. snd e = p) (faults c))) else 0)"
    by (simp only: newStats_fields rest heap count_heap_update)
      (simp add: FaultStatusActive_def FaultStatusAcknowledged_def SeverityCritical_def)
  from p heap rest active critical newStats_same_devices [OF rest(2) rest(3)] show ?thesis
    by blast
qed

lemma newStats_counts:
  "TotalDevices (newStats c) = int (length (devices c)) \<and>
   OnlineDevices (newStats c) =
     int (length (filter (\<lambda>d. Online (Status d)) (map (deviceHeap c \<circ> snd) (devices c)))) \<and>
   OfflineDevices (newStats c) =
     int (length (filter (\<lambda>d. \<not> Online (Status d)) (map (deviceHeap c \<circ> snd) (devices c)))) \<and>
   (\<forall>v. DevicesByVendor (newStats c) v =
      (let n = length (filter (\<lambda>d. (if Manufacturer (DeviceID d) = '''' then ''Unknown''
                                      else Manufacturer (DeviceID d)) = v)
                         (map (deviceHeap c \<circ> snd) (devices c)))
       in if n = 0 then None else Some (int n))) \<and>
   (\<forall>m. DevicesByModel (newStats c) m =
      (let n = length (filter (\<lambda>d. (if ModelName (DeviceID d) = '''' then ''Unknown''
                                      else ModelName (DeviceID d)) = m)
                         (map (deviceHeap c \<circ> snd) (devices c)))
       in if n = 0 then None else Some (int n))) \<and>
   ActiveFaults (newStats c) =
     int (length (filter (\<lambda>f. Status_F f = ''active'' \<or> Status_F f = ''acknowledged'')
            (map (faultHeap c \<circ> snd) (faults c)))) \<and>
   CriticalFaults (newStats c) =
     int (length (filter (\<lambda>f. (Status_F f = ''active'' \<or> Status_F f = ''acknowledged'')
                              \<and> Severity f = ''critical'')
            (map (faultHeap c \<circ> snd) (faults c))))"
  by (simp only: newStats_fields increments_empty length_filter_map FaultStatusActive_def
      FaultStatusAcknowledged_def SeverityCritical_def simp_thms)

text \<open>
  Claim C1. Let \<open>c'\<close> be the context that one of the six mutating operations leaves when
  it has done its work: \<open>AddDevice\<close> or \<open>AddFault\<close> of an object, \<open>RemoveDevice\<close>,
  \<open>UpdateDeviceStatus\<close> of a device that is stored, \<open>AcknowledgeFault\<close> or \<open>ResolveFault\<close>
  returning no error. Then the time of the cache in \<open>c'\<close> is the zero time, and the next
  \<open>GetDeviceStats\<close>, at any reading of the clock of at least a minute after the zero time
  (so however soon after the cached snapshot was computed), runs \<open>updateStatsCache\<close> and
  returns its snapshot, which is the statistics of the devices and faults of \<open>c'\<close>. The
  other calls of these operations, those that find no device or fault under the
  identifier, leave the whole context as it is, the cache included.

  The snapshot returned holds the counts of the registry of \<open>c'\<close>: the number of entries
  of its device map, the numbers of its devices that are online and that are not, for
  every vendor and model name the number of its devices of that name, the number of its
  faults that are active or acknowledged and the number of those that are critical.

  The registry of \<open>c'\<close> is the registry of \<open>c\<close> with the change the operation makes, and
  the counts move with it, from the statistics of \<open>c\<close> (what a read before the operation
  would have computed) to those of \<open>c'\<close>:
  \<^item> \<open>AddDevice\<close> binds the device's identifier to the pointer; the total grows by one
    unless the identifier was bound already, and a device under a new identifier adds one
    to the online or to the offline count;
  \<^item> \<open>RemoveDevice\<close> unbinds the identifier; if it was bound, the total shrinks by one,
    and so does the online or the offline count, according to the device (the keys being
    distinct);
  \<^item> \<open>UpdateDeviceStatus\<close> writes the status of the device's object; the online count
    moves by one, up or down, for every key that holds the object if the flag changes, and
    the offline count moves the other way;
  \<^item> \<open>AddFault\<close> binds the fault's identifier to the pointer; a fault under a new
    identifier adds one to the active count if it is active or acknowledged, and one to the
    critical count if it is critical as well;
  \<^item> \<open>AcknowledgeFault\<close> writes the status \<open>acknowledged\<close>, the actor and the time into the
    fault's object; a fault that was not counted as active is counted now, once for every
    key that holds the object, and as critical too if it is critical;
  \<^item> \<open>ResolveFault\<close> writes the status \<open>resolved\<close>, the actor and the time; a fault that
    was counted as active, and as critical, is not counted any more.

  An operation on devices leaves the fault counts as they were, and an operation on
  faults the device counts.
\<close>

theorem mutation_invalidates_statsCache:
  assumes "Minute \<le> now"
    and "AddDevice (Some p) c = Inr c' \<or>
         c' = RemoveDevice deviceID c \<or>
         (deviceID \<in> fst ` set (devices c) \<and> c' = UpdateDeviceStatus t deviceID online c) \<or>
         AddFault (Some q) c = Inr c' \<or>
         AcknowledgeFault t faultID actor c = (None, c') \<or>
         ResolveFault t faultID actor c = (None, c')"
  shows "statsCacheTime c' = zeroTime \<and>
         GetDeviceStats now now' c' =
           (statsCache (updateStatsCache now' c'), updateStatsCache now' c') \<and>
         statsHeap (updateStatsCache now' c') (statsCache (updateStatsCache now' c')) =
           newStats c' \<and>
         (deviceID' \<notin> fst ` set (devices c) \<longrightarrow>
            UpdateDeviceStatus t deviceID' online c = c) \<and>
         (faultID' \<notin> fst ` set (faults c) \<longrightarrow>
            AcknowledgeFault t faultID' actor c = (Some ErrFaultNotFound, c) \<and>
            ResolveFault t faultID' actor c = (Some ErrFaultNotFound, c)) \<and>
         (let s = statsHeap (snd (GetDeviceStats now now' c')) (fst (GetDeviceStats now now' c'));
              ds = map (deviceHeap c' \<circ> snd) (devices c');
              fs = map (faultHeap c' \<circ> snd) (faults c')
          in s = newStats c' \<and>
             TotalDevices s = int (length (devices c')) \<and>
             OnlineDevices s = int (length (filter (\<lambda>d. Online (Status d)) ds)) \<and>
             OfflineDevices s = int (length (filter (\<lambda>d. \<not> Online (Status d)) ds)) \<and>
             (\<forall>v. DevicesByVendor s v =
                (let n = length (filter (\<lambda>d. (if Manufacturer (DeviceID d) = '''' then ''Unknown''
                                                else Manufacturer (DeviceID d)) = v) ds)
                 in if n = 0 then None else Some (int n))) \<and>
             (\<forall>m. DevicesByModel s m =
                (let n = length (filter (\<lambda>d. (if ModelName (DeviceID d) = '''' then ''Unknown''
                                                else ModelName (DeviceID d)) = m) ds)
                 in if n = 0 then None else Some (int n))) \<and>
             ActiveFaults s =
               int (length (filter (\<lambda>f. Status_F f = ''active'' \<or> Status_F f = ''acknowledged'')
                      fs)) \<and>
             CriticalFaults s =
               int (length (filter (\<lambda>f. (Status_F f = ''active'' \<or> Status_F f = ''acknowledged'')
                                        \<and> Severity f = ''critical'') fs))) \<and>
         (AddDevice (Some p) c = Inr c' \<longrightarrow>
            map_of (devices c') = (map_of (devices c))(ID (deviceHeap c p) \<mapsto> p) \<and>
            faults c' = faults c \<and> deviceHeap c' = deviceHeap c \<and> faultHeap c' = faultHeap c \<and>
            TotalDevices (newStats c') =
              TotalDevices (newStats c) +
                (if ID (deviceHeap c p) \<in> fst ` set (devices c) then 0 else 1) \<and>
            (ID (deviceHeap c p) \<notin> fst ` set (devices c) \<longrightarrow>
               OnlineDevices (newStats c') =
                 OnlineDevices (newStats c) + (if Online (Status (deviceHeap c p)) then 1 else 0) \<and>
               OfflineDevices (newStats c') =
                 OfflineDevices (newStats c) + (if Online (Status (deviceHeap c p)) then 0 else 1)) \<and>
            ActiveFaults (newStats c') = ActiveFaults (newStats c) \<and>
            CriticalFaults (newStats c') = CriticalFaults (newStats c)) \<and>
         (c' = RemoveDevice deviceID c \<longrightarrow>
            map_of (devices c') = (map_of (devices c))(deviceID := None) \<and>
            faults c' = faults c \<and> deviceHeap c' = deviceHeap c \<and> faultHeap c' = faultHeap c \<and>
            (wellFormed c \<longrightarrow>
               TotalDevices (newStats c') =
                 TotalDevices (newStats c) -
                   (if deviceID \<in> fst ` set (devices c) then 1 else 0)) \<and>
            (\<forall>p. wellFormed c \<and> map_of (devices c) deviceID = Some p \<longrightarrow>
               OnlineDevices (newStats c') =
                 OnlineDevices (newStats c) - (if Online (Status (deviceHeap c p)) then 1 else 0) \<and>
               OfflineDevices (newStats c') =
                 OfflineDevices (newStats c) - (if Online (Status (deviceHeap c p)) then 0 else 1)) \<and>
            ActiveFaults (newStats c') = ActiveFaults (newStats c) \<and>
            CriticalFaults (newStats c') = CriticalFaults (newStats c)) \<and>
         (deviceID \<in> fst ` set (devices c) \<and> c' = UpdateDeviceStatus t deviceID online c \<longrightarrow>
            (\<exists>p. map_of (devices c) deviceID = Some p \<and>
               deviceHeap c' =
                 (deviceHeap c)
                   (p := (deviceHeap c p)
                      \<lparr>Status := (Status (deviceHeap c p))
                         \<lparr>Online := online, LastSeen := t,
                          ConnectionStatus :=
                            (if online then ''connected'' else ''disconnected'')\<rparr>\<rparr>) \<and>
               devices c' = devices c \<and> faults c' = faults c \<and> faultHeap c' = faultHeap c \<and>
               TotalDevices (newStats c') = TotalDevices (newStats c) \<and>
               OnlineDevices (newStats c') =
                 OnlineDevices (newStats c) +
                   int (length (filter (\<lambda>e. snd e = p) (devices c))) *
                     ((if online then 1 else 0) -
                      (if Online (Status (deviceHeap c p)) then 1 else 0)) \<and>
               OfflineDevices (newStats c') =
                 OfflineDevices (newStats c) -
                   int (length (filter (\<lambda>e. snd e = p) (devices c))) *
                     ((if online then 1 else 0) -
                      (if Online (Status (deviceHeap c p)) then 1 else 0)) \<and>
               ActiveFaults (newStats c') = ActiveFaults (newStats c) \<and>
               CriticalFaults (newStats c') = CriticalFaults (newStats c))) \<and>
         (AddFault (Some q) c = Inr c' \<longrightarrow>
            map_of (faults c') = (map_of (faults c))(ID_F (faultHeap c q) \<mapsto> q) \<and>
            devices c' = devices c \<and> deviceHeap c' = deviceHeap c \<and> faultHeap c' = faultHeap c \<and>
            (ID_F (faultHeap c q) \<notin> fst ` set (faults c) \<longrightarrow>
               ActiveFaults (newStats c') =
                 ActiveFaults (newStats c) +
                   (if Status_F (faultHeap c q) = ''active'' \<or>
                       Status_F (faultHeap c q) = ''acknowledged'' then 1 else 0) \<and>
               CriticalFaults (newStats c') =
                 CriticalFaults (newStats c) +
                   (if (Status_F (faultHeap c q) = ''active'' \<or>
                        Status_F (faultHeap c q) = ''acknowledged'') \<and>
                       Severity (faultHeap c q) = ''critical'' then 1 else 0)) \<and>
            TotalDevices (newStats c') = TotalDevices (newStats c) \<and>
            OnlineDevices (newStats c') = OnlineDevices (newStats c) \<and>
            OfflineDevices (newStats c') = OfflineDevices (newStats c)) \<and>
         (AcknowledgeFault t faultID actor c = (None, c') \<longrightarrow>
            (\<exists>p. map_of (faults c) faultID = Some p \<and>
               faultHeap c' =
                 (faultHeap c)
                   (p := (faultHeap c p)
                      \<lparr>Status_F := ''acknowledged'', AcknowledgedBy := actor,
                       AcknowledgedAt := Some t\<rparr>) \<and>
               faults c' = faults c \<and> devices c' = devices c \<and> deviceHeap c' = deviceHeap c \<and>
               ActiveFaults (newStats c') =
                 ActiveFaults (newStats c) +
                   (if Status_F (faultHeap c p) = ''active'' \<or>
                       Status_F (faultHeap c p) = ''acknowledged'' then 0
                    else int (length (filter (\<lambda>e. snd e = p) (faults c)))) \<and>
               CriticalFaults (newStats c') =
                 CriticalFaults (newStats c) +
                   (if Status_F (faultHeap c p) = ''active'' \<or>
                       Status_F (faultHeap c p) = ''acknowledged'' \<or>
                       Severity (faultHeap c p) \<noteq> ''critical'' then 0
                    else int (length (filter (\<lambda>e. snd e = p) (faults c)))) \<and>
               TotalDevices (newStats c') = TotalDevices (newStats c) \<and>
               OnlineDevices (newStats c') = OnlineDevices (newStats c) \<and>
               OfflineDevices (newStats c') = OfflineDevices (newStats c))) \<and>
         (ResolveFault t faultID actor c = (None, c') \<longrightarrow>
            (\<exists>p. map_of (faults c) faultID = Some p \<and>
               faultHeap c' =
                 (faultHeap c)
                   (p := (faultHeap c p)
                      \<lparr>Status_F := ''resolved'', ResolvedBy := actor, ResolvedAt := Some t\<rparr>) \<and>
               faults c' = faults c \<and> devices c' = devices c \<and> deviceHeap c' = deviceHeap c \<and>
               ActiveFaults (newStats c') =
                 ActiveFaults (newStats c) -
                   (if Status_F (faultHeap c p) = ''active'' \<or>
                       Status_F (faultHeap c p) = ''acknowledged''
                    then int (length (filter (\<lambda>e. snd e = p) (faults c))) else 0) \<and>
               CriticalFaults (newStats c') =
                 CriticalFaults (newStats c) -
                   (if (Status_F (faultHeap c p) = ''active'' \<or>
                        Status_F (faultHeap c p) = ''acknowledged'') \<and>
                       Severity (faultHeap c p) = ''critical''
                    then int (length (filter (\<lambda>e. snd e = p) (faults c))) else 0) \<and>
               TotalDevices (newStats c') = TotalDevices (newStats c) \<and>
               OnlineDevices (newStats c') = OnlineDevices (newStats c) \<and>
               OfflineDevices (newStats c') = OfflineDevices (newStats c)))"
proof -
  from assms(2) have zero: "statsCacheTime c' = zeroTime"
  proof (elim disjE conjE)
    assume "AddDevice (Some p) c = Inr c'"
    then show ?thesis by (rule mutation_statsCacheTime(1))
  next
    assume "c' = RemoveDevice deviceID c"
    then show ?thesis by (simp add: mutation_statsCacheTime(2))
  next
    assume "deviceID \<in> fst ` set (devices c)" and "c' = UpdateDeviceStatus t deviceID online c"
    then show ?thesis by (simp add: mutation_statsCacheTime(3))
  next
    assume "AddFault (Some q) c = Inr c'"
    then show ?thesis by (rule mutation_statsCacheTime(4))
  next
    assume "AcknowledgeFault t faultID actor c = (None, c')"
    then show ?thesis by (rule mutation_statsCacheTime(5))
  next
    assume "ResolveFault t faultID actor c = (None, c')"
    then show ?thesis by (rule mutation_statsCacheTime(6))
  qed
  from assms(1) zero have get: "GetDeviceStats now now' c' =
      (statsCache (updateStatsCache now' c'), updateStatsCache now' c')"
    by (rule GetDeviceStats_invalid)
  have snap: "statsHeap (updateStatsCache now' c') (statsCache (updateStatsCache now' c')) =
      newStats c'"
    by (rule snapshot_updateStatsCache)
  have noop: "deviceID' \<notin> fst ` set (devices c) \<longrightarrow>
      UpdateDeviceStatus t deviceID' online c = c"
    by (simp add: UpdateDeviceStatus_def map_of_absent)
  have nofault: "faultID' \<notin> fst ` set (faults c) \<longrightarrow>
      AcknowledgeFault t faultID' actor c = (Some ErrFaultNotFound, c) \<and>
      ResolveFault t faultID' actor c = (Some ErrFaultNotFound, c)"
    by (simp add: AcknowledgeFault_def ResolveFault_def map_of_absent)
  have read: "statsHeap (snd (GetDeviceStats now now' c')) (fst (GetDeviceStats now now' c')) =
      newStats c'"
    by (simp only: get fst_conv snd_conv snap)
  have counts: "let s = statsHeap (snd (GetDeviceStats now now' c')) (fst (GetDeviceStats now now' c'));
        ds = map (deviceHeap c' \<circ> snd) (devices c');
        fs = map (faultHeap c' \<circ> snd) (faults c')
    in s = newStats c' \<and>
       TotalDevices s = int (length (devices c')) \<and>
       OnlineDevices s = int (length (filter (\<lambda>d. Online (Status d)) ds)) \<and>
       OfflineDevices s = int (length (filter (\<lambda>d. \<not> Online (Status d)) ds)) \<and>
       (\<forall>v. DevicesByVendor s v =
          (let n = length (filter (\<lambda>d. (if Manufacturer (DeviceID d) = '''' then ''Unknown''
                                          else Manufacturer (DeviceID d)) = v) ds)
           in if n = 0 then None else Some (int n))) \<and>
       (\<forall>m. DevicesByModel s m =
          (let n = length (filter (\<lambda>d. (if ModelName (DeviceID d) = '''' then ''Unknown''
                                          else ModelName (DeviceID d)) = m) ds)
           in if n = 0 then None else Some (int n))) \<and>
       ActiveFaults s =
         int (length (filter (\<lambda>f. Status_F f = ''active'' \<or> Status_F f = ''acknowledged'')
                fs)) \<and>
       CriticalFaults s =
         int (length (filter (\<lambda>f. (Status_F f = ''active'' \<or> Status_F f = ''acknowledged'')
                                  \<and> Severity f = ''critical'') fs))"
    unfolding Let_def read using newStats_counts [of c', unfolded Let_def] by simp
  note ops = AddDevice_statistics [of p c c'] RemoveDevice_statistics [of c' deviceID c]
    UpdateDeviceStatus_statistics [of deviceID c c' t online] AddFault_statistics [of q c c']
    AcknowledgeFault_statistics [of t faultID actor c c']
    ResolveFault_statistics [of t faultID actor c c']
  show ?thesis
    apply (intro conjI)
               apply (rule zero)
              apply (rule get)
             apply (rule snap)
            apply (rule noop)
           apply (rule nofault)
          apply (rule counts)
         apply (rule impI, erule ops(1))
        apply (rule impI, erule ops(2))
       apply (rule impI, erule conjE, erule (1) ops(3))
      apply (rule impI, erule ops(4))
     apply (rule impI, erule ops(5))
    apply (rule impI, erule ops(6))
    done
qed

text \<open>
  On the example context with its statistics read at \<open>testNow\<close> (three devices, two online
  and one offline, one active fault, which is critical): a second later, within the window
  in which the cached snapshot would be returned, each of the six operations is run on it,
  and the statistics are read at that same time.
  \<^item> After \<open>AddDevice\<close> of the zero device, whose identifier is new: four devices, two
    offline.
  \<^item> After \<open>RemoveDevice\<close> of the second device: two devices, none offline.
  \<^item> After \<open>UpdateDeviceStatus\<close> of the first device to offline: one device online, two
    offline.
  \<^item> After \<open>AddFault\<close> of the third fault, which is major and active: two active faults,
    one critical.
  \<^item> After \<open>AcknowledgeFault\<close> of the first fault: it still counts as active and as
    critical.
  \<^item> After \<open>ResolveFault\<close> of the first fault: no active fault, no critical fault.

  A status update or an acknowledgement under an identifier that is not stored leaves the
  context, with its cache, as it is.
\<close>

theorem mutation_invalidates_statsCache_witness:
  "Since (testNow + Second)
     (statsCacheTime (snd (GetDeviceStats testNow testNow testContext))) < Minute \<and>
   (let s = statsHeap (snd (GetDeviceStats testNow testNow testContext))
              (fst (GetDeviceStats testNow testNow testContext))
    in TotalDevices s = 3 \<and> OnlineDevices s = 2 \<and> OfflineDevices s = 1 \<and>
       ActiveFaults s = 1 \<and> CriticalFaults s = 1) \<and>
   (let r = GetDeviceStats (testNow + Second) (testNow + Second)
              (projr (AddDevice (Some 0) (snd (GetDeviceStats testNow testNow testContext))));
        s = statsHeap (snd r) (fst r)
    in TotalDevices s = 4 \<and> OnlineDevices s = 2 \<and> OfflineDevices s = 2 \<and>
       ActiveFaults s = 1 \<and> CriticalFaults s = 1) \<and>
   (let r = GetDeviceStats (testNow + Second) (testNow + Second)
              (RemoveDevice ''test-device-2'' (snd (GetDeviceStats testNow testNow testContext)));
        s = statsHeap (snd r) (fst r)
    in TotalDevices s = 2 \<and> OnlineDevices s = 2 \<and> OfflineDevices s = 0 \<and>
       ActiveFaults s = 1 \<and> CriticalFaults s = 1) \<and>
   (let r = GetDeviceStats (testNow + Second) (testNow + Second)
              (UpdateDeviceStatus (testNow + Second) ''test-device-1'' False
                 (snd (GetDeviceStats testNow testNow testContext)));
        s = statsHeap (snd r) (fst r)
    in TotalDevices s = 3 \<and> OnlineDevices s = 1 \<and> OfflineDevices s = 2 \<and>
       ActiveFaults s = 1 \<and> CriticalFaults s = 1) \<and>
   (let r = GetDeviceStats (testNow + Second) (testNow + Second)
              (projr (AddFault (Some 3) (snd (GetDeviceStats testNow testNow testContext))));
        s = statsHeap (snd r) (fst r)
    in TotalDevices s = 3 \<and> OnlineDevices s = 2 \<and> OfflineDevices s = 1 \<and>
       ActiveFaults s = 2 \<and> CriticalFaults s = 1) \<and>
   (let r = GetDeviceStats (testNow + Second) (testNow + Second)
              (snd (AcknowledgeFault (testNow + Second) ''test-fault-1'' ''bob''
                      (snd (GetDeviceStats testNow testNow testContext))));
        s = statsHeap (snd r) (fst r)
    in TotalDevices s = 3 \<and> OnlineDevices s = 2 \<and> OfflineDevices s = 1 \<and>
       ActiveFaults s = 1 \<and> CriticalFaults s = 1) \<and>
   (let r = GetDeviceStats (testNow + Second) (testNow + Second)
              (snd (ResolveFault (testNow + Second) ''test-fault-1'' ''bob''
                      (snd (GetDeviceStats testNow testNow testContext))));
        s = statsHeap (snd r) (fst r)
    in TotalDevices s = 3 \<and> OnlineDevices s = 2 \<and> OfflineDevices s = 1 \<and>
       ActiveFaults s = 0 \<and> CriticalFaults s = 0) \<and>
   UpdateDeviceStatus (testNow + Second) ''missing-id'' False
       (snd (GetDeviceStats testNow testNow testContext)) =
     snd (GetDeviceStats testNow testNow testContext) \<and>
   AcknowledgeFault (testNow + Second) ''missing-id'' ''bob''
       (snd (GetDeviceStats testNow testNow testContext)) =
     (Some ErrFaultNotFound, snd (GetDeviceStats testNow testNow testContext))"
proof -
  let ?t = "testNow + Second"
  let ?c = "snd (GetDeviceStats testNow testNow testContext)"
  let ?read = "\<lambda>c'. statsHeap (snd (GetDeviceStats ?t ?t c')) (fst (GetDeviceStats ?t ?t c'))"
  have c: "?c = updateStatsCache testNow testContext"
    by (simp add: testContext_computed)
  have reg: "devices ?c = [(''test-device-1'', 1), (''test-device-2'', 2), (''test-device-3'', 3)]"
      "faults ?c = [(''test-fault-1'', 1), (''test-fault-2'', 2)]"
      "deviceHeap ?c = testDevices" "faultHeap ?c = testFaults"
    by (simp_all add: c updateStatsCache_fields testContext_facts)
  have wf: "wellFormed ?c"
    by (simp add: wellFormed_def reg)
  have late: "Minute \<le> ?t"
    by (simp add: Minute_def testNow_def Second_def)
  have fresh: "Since ?t (statsCacheTime ?c) < Minute"
    by (simp add: c updateStatsCache_fields Since_def Sub_def Minute_def Second_def
        minDuration_def maxDuration_def Let_def)
  have cached: "statsHeap ?c (fst (GetDeviceStats testNow testNow testContext)) = newStats ?c"
  proof -
    have "statsHeap ?c (statsCache ?c) = newStats testContext"
      by (simp add: c snapshot_updateStatsCache)
    moreover have "newStats ?c = newStats testContext"
      by (rule newStats_cong) (simp_all add: c updateStatsCache_fields)
    moreover have "fst (GetDeviceStats testNow testNow testContext) = statsCache ?c"
      by (simp add: testContext_computed updateStatsCache_fields testContext_facts)
    ultimately show ?thesis
      by simp
  qed
  have base: "TotalDevices (newStats ?c) = 3" "OnlineDevices (newStats ?c) = 2"
      "OfflineDevices (newStats ?c) = 1" "ActiveFaults (newStats ?c) = 1"
      "CriticalFaults (newStats ?c) = 1"
    unfolding newStats_fields reg
    by (simp_all add: testDevices_def testDevice1_def testDevice2_def testDevice3_def
        zeroDevice_def testFaults_def testFault1_def testFault2_def zeroFault_def
        FaultStatusActive_def FaultStatusAcknowledged_def FaultStatusResolved_def
        SeverityCritical_def SeverityMinor_def)
  have before: "TotalDevices (statsHeap ?c (fst (GetDeviceStats testNow testNow testContext))) = 3
      \<and> OnlineDevices (statsHeap ?c (fst (GetDeviceStats testNow testNow testContext))) = 2
      \<and> OfflineDevices (statsHeap ?c (fst (GetDeviceStats testNow testNow testContext))) = 1
      \<and> ActiveFaults (statsHeap ?c (fst (GetDeviceStats testNow testNow testContext))) = 1
      \<and> CriticalFaults (statsHeap ?c (fst (GetDeviceStats testNow testNow testContext))) = 1"
    unfolding cached by (simp add: base)
  note inst = mutation_invalidates_statsCache [where now = ?t and now' = ?t and c = ?c
      and p = 0 and q = 3 and t = ?t and online = False and faultID = "''test-fault-1''"
      and actor = "''bob''" and deviceID' = "''missing-id''" and faultID' = "''missing-id''",
      OF late]

  txt \<open>\<open>AddDevice\<close> of the zero device.\<close>
  let ?c1 = "projr (AddDevice (Some 0) ?c)"
  have d1: "AddDevice (Some 0) ?c = Inr ?c1"
    by (simp add: AddDevice_Some)
  have new1: "ID (deviceHeap ?c 0) \<notin> fst ` set (devices ?c)"
      "\<not> Online (Status (deviceHeap ?c 0))"
    by (simp_all add: reg testDevices_def zeroDevice_def)
  note i1 = inst [where c' = ?c1 and deviceID = "''test-device-2''", OF disjI1 [OF d1]]
  note r1 = i1 [THEN conjunct2, THEN conjunct2, THEN conjunct2, THEN conjunct2,
      THEN conjunct2, THEN conjunct1, unfolded Let_def, THEN conjunct1]
  note o1 = i1 [THEN conjunct2, THEN conjunct2, THEN conjunct2, THEN conjunct2,
      THEN conjunct2, THEN conjunct2, THEN conjunct1, rule_format, OF d1]
  have a1: "TotalDevices (?read ?c1) = 4 \<and> OnlineDevices (?read ?c1) = 2 \<and>
      OfflineDevices (?read ?c1) = 2 \<and> ActiveFaults (?read ?c1) = 1 \<and>
      CriticalFaults (?read ?c1) = 1"
    unfolding r1 using o1 new1 by (simp add: base)

  txt \<open>\<open>RemoveDevice\<close> of the second device.\<close>
  let ?c2 = "RemoveDevice ''test-device-2'' ?c"
  have d2: "?c2 = RemoveDevice ''test-device-2'' ?c"
    by (rule refl)
  have old2: "''test-device-2'' \<in> fst ` set (devices ?c)"
      "map_of (devices ?c) ''test-device-2'' = Some 2"
      "\<not> Online (Status (deviceHeap ?c 2))"
    by (simp_all add: reg testDevices_def testDevice2_def zeroDevice_def)
  note i2 = inst [where c' = ?c2 and deviceID = "''test-device-2''",
      OF disjI2 [OF disjI1 [OF d2]]]
  note r2 = i2 [THEN conjunct2, THEN conjunct2, THEN conjunct2, THEN conjunct2,
      THEN conjunct2, THEN conjunct1, unfolded Let_def, THEN conjunct1]
  note o2 = i2 [THEN conjunct2, THEN conjunct2, THEN conjunct2, THEN conjunct2,
      THEN conjunct2, THEN conjunct2, THEN conjunct2, THEN conjunct1, rule_format, OF d2]
  have a2: "TotalDevices (?read ?c2) = 2 \<and> OnlineDevices (?read ?c2) = 2 \<and>
      OfflineDevices (?read ?c2) = 0 \<and> ActiveFaults (?read ?c2) = 1 \<and>
      CriticalFaults (?read ?c2) = 1"
    unfolding r2 using o2 wf old2 by (simp add: base)

  txt \<open>\<open>UpdateDeviceStatus\<close> of the first device.\<close>
  let ?c3 = "UpdateDeviceStatus ?t ''test-device-1'' False ?c"
  have d3: "''test-device-1'' \<in> fst ` set (devices ?c) \<and>
      ?c3 = UpdateDeviceStatus ?t ''test-device-1'' False ?c"
    by (simp add: reg)
  have old3: "map_of (devices ?c) ''test-device-1'' = Some 1"
      "Online (Status (deviceHeap ?c 1))"
      "length (filter (\<lambda>e. snd e = 1) (devices ?c)) = 1"
    by (simp_all add: reg testDevices_def testDevice1_def zeroDevice_def)
  note i3 = inst [where c' = ?c3 and deviceID = "''test-device-1''",
      OF disjI2 [OF disjI2 [OF disjI1 [OF d3]]]]
  note r3 = i3 [THEN conjunct2, THEN conjunct2, THEN conjunct2, THEN conjunct2,
      THEN conjunct2, THEN conjunct1, unfolded Let_def, THEN conjunct1]
  note o3 = i3 [THEN conjunct2, THEN conjunct2, THEN conjunct2, THEN conjunct2,
      THEN conjunct2, THEN conjunct2, THEN conjunct2, THEN conjunct2, THEN conjunct1,
      rule_format, OF d3]
  have a3: "TotalDevices (?read ?c3) = 3 \<and> OnlineDevices (?read ?c3) = 1 \<and>
      OfflineDevices (?read ?c3) = 2 \<and> ActiveFaults (?read ?c3) = 1 \<and>
      CriticalFaults (?read ?c3) = 1"
    unfolding r3 using o3 old3 by (auto simp add: base)

  txt \<open>\<open>AddFault\<close> of the third fault.\<close>
  let ?c4 = "projr (AddFault (Some 3) ?c)"
  have d4: "AddFault (Some 3) ?c = Inr ?c4"
    by (simp add: AddFault_Some)
  have new4: "ID_F (faultHeap ?c 3) \<notin> fst ` set (faults ?c)"
      "Status_F (faultHeap ?c 3) = ''active''"
      "Severity (faultHeap ?c 3) \<noteq> ''critical''"
    by (simp_all add: reg testFaults_def testFault3_def zeroFault_def FaultStatusActive_def
        SeverityMajor_def)
  note i4 = inst [where c' = ?c4 and deviceID = "''test-device-2''",
      OF disjI2 [OF disjI2 [OF disjI2 [OF disjI1 [OF d4]]]]]
  note r4 = i4 [THEN conjunct2, THEN conjunct2, THEN conjunct2, THEN conjunct2,
      THEN conjunct2, THEN conjunct1, unfolded Let_def, THEN conjunct1]
  note o4 = i4 [THEN conjunct2, THEN conjunct2, THEN conjunct2, THEN conjunct2,
      THEN conjunct2, THEN conjunct2, THEN conjunct2, THEN conjunct2, THEN conjunct2,
      THEN conjunct1, rule_format, OF d4]
  have a4: "TotalDevices (?read ?c4) = 3 \<and> OnlineDevices (?read ?c4) = 2 \<and>
      OfflineDevices (?read ?c4) = 1 \<and> ActiveFaults (?read ?c4) = 2 \<and>
      CriticalFaults (?read ?c4) = 1"
    unfolding r4 using o4 new4 by (simp add: base)

  txt \<open>\<open>AcknowledgeFault\<close> and \<open>ResolveFault\<close> of the first fault.\<close>
  have old5: "map_of (faults ?c) ''test-fault-1'' = Some 1"
      "Status_F (faultHeap ?c 1) = ''active''"
      "Severity (faultHeap ?c 1) = ''critical''"
      "length (filter (\<lambda>e. snd e = 1) (faults ?c)) = 1"
    by (simp_all add: reg testFaults_def testFault1_def zeroFault_def FaultStatusActive_def
        SeverityCritical_def)
  let ?c5 = "snd (AcknowledgeFault ?t ''test-fault-1'' ''bob'' ?c)"
  have d5: "AcknowledgeFault ?t ''test-fault-1'' ''bob'' ?c = (None, ?c5)"
    by (simp add: AcknowledgeFault_def old5(1) Let_def)
  note i5 = inst [where c' = ?c5 and deviceID = "''test-device-2''",
      OF disjI2 [OF disjI2 [OF disjI2 [OF disjI2 [OF disjI1 [OF d5]]]]]]
  note r5 = i5 [THEN conjunct2, THEN conjunct2, THEN conjunct2, THEN conjunct2,
      THEN conjunct2, THEN conjunct1, unfolded Let_def, THEN conjunct1]
  note o5 = i5 [THEN conjunct2, THEN conjunct2, THEN conjunct2, THEN conjunct2,
      THEN conjunct2, THEN conjunct2, THEN conjunct2, THEN conjunct2, THEN conjunct2,
      THEN conjunct2, THEN conjunct1, rule_format, OF d5]
  have a5: "TotalDevices (?read ?c5) = 3 \<and> OnlineDevices (?read ?c5) = 2 \<and>
      OfflineDevices (?read ?c5) = 1 \<and> ActiveFaults (?read ?c5) = 1 \<and>
      CriticalFaults (?read ?c5) = 1"
    unfolding r5 using o5 old5 by (auto simp add: base)
  let ?c6 = "snd (ResolveFault ?t ''test-fault-1'' ''bob'' ?c)"
  have d6: "ResolveFault ?t ''test-fault-1'' ''bob'' ?c = (None, ?c6)"
    by (simp add: ResolveFault_def old5(1) Let_def)
  note i6 = inst [where c' = ?c6 and deviceID = "''test-device-2''",
      OF disjI2 [OF disjI2 [OF disjI2 [OF disjI2 [OF disjI2 [OF d6]]]]]]
  note r6 = i6 [THEN conjunct2, THEN conjunct2, THEN conjunct2, THEN conjunct2,
      THEN conjunct2, THEN conjunct1, unfolded Let_def, THEN conjunct1]
  note o6 = i6 [THEN conjunct2, THEN conjunct2, THEN conjunct2, THEN conjunct2,
      THEN conjunct2, THEN conjunct2, THEN conjunct2, THEN conjunct2, THEN conjunct2,
      THEN conjunct2, THEN conjunct2, rule_format, OF d6]
  have a6: "TotalDevices (?read ?c6) = 3 \<and> OnlineDevices (?read ?c6) = 2 \<and>
      OfflineDevices (?read ?c6) = 1 \<and> ActiveFaults (?read ?c6) = 0 \<and>
      CriticalFaults (?read ?c6) = 0"
    unfolding r6 using o6 old5 by (auto simp add: base)

  txt \<open>The calls that find nothing under the identifier.\<close>
  have absent: "''missing-id'' \<notin> fst ` set (devices ?c)"
      "''missing-id'' \<notin> fst ` set (faults ?c)"
    by (simp_all add: reg)
  note noop = i2 [THEN conjunct2, THEN conjunct2, THEN conjunct2, THEN conjunct1,
      rule_format, OF absent(1)]
  note nofault = i2 [THEN conjunct2, THEN conjunct2, THEN conjunct2, THEN conjunct2,
      THEN conjunct1, rule_format, OF absent(2), THEN conjunct1]
  show ?thesis
    unfolding Let_def
    apply (intro conjI)
    apply (rule fresh)
    apply (simp_all only: before a1 a2 a3 a4 a5 a6 noop nofault)
    done
qed

subsection \<open>Two reads of the statistics\<close>

text \<open>
  Claim C7, as stated, fails: whether the second call recomputes depends on the age of
  the snapshot, not on the time since the first call. The statistics of the example
  context are computed by a read at \<open>testNow\<close>, as the object at address 1. A call 50
  seconds later returns that object and leaves the context as it is. A call 20 seconds
  after that one, on that same context, finds a snapshot 70 seconds old, computes a new
  one and returns the object at address 2.
\<close>

theorem GetDeviceStats_twice_counterexample:
  "Since (testNow + 70 * Second) (testNow + 50 * Second) < Minute \<and>
   GetDeviceStats (testNow + 50 * Second) (testNow + 50 * Second)
       (snd (GetDeviceStats testNow testNow testContext)) =
     (1, snd (GetDeviceStats testNow testNow testContext)) \<and>
   fst (GetDeviceStats (testNow + 70 * Second) (testNow + 70 * Second)
          (snd (GetDeviceStats testNow testNow testContext))) = 2"
  unfolding testContext_computed snd_conv
  by (simp add: GetDeviceStats_def updateStatsCache_fields testContext_facts Since_def
      Sub_def Minute_def Second_def minDuration_def maxDuration_def Let_def)

text \<open>
  Claim C7, amended. When \<open>GetDeviceStats\<close> is called twice with no operation in
  between, and the second call comes less than a minute after the time of the cache as
  the first call left it, the second call returns the pointer the first one returned and
  leaves the context, and so the snapshot, as it was: it computes nothing. The time of
  the cache after the first call is the clock's reading in that call if it recomputed,
  and the earlier time of the cache if it did not.
\<close>

theorem GetDeviceStats_twice:
  assumes "GetDeviceStats now1 now1' c = (st, c1)"
    and "Since now2 (statsCacheTime c1) < Minute"
  shows "GetDeviceStats now2 now2' c1 = (st, c1) \<and>
         statsCacheTime c1 =
           (if Since now1 (statsCacheTime c) < Minute then statsCacheTime c else now1')"
proof -
  from assms(1) have st: "st = statsCache c1"
    by (auto simp add: GetDeviceStats_def Let_def split: if_splits)
  from assms(2) have "GetDeviceStats now2 now2' c1 = (statsCache c1, c1)"
    by (rule GetDeviceStats_fresh)
  moreover from assms(1) have "statsCacheTime c1 =
      (if Since now1 (statsCacheTime c) < Minute then statsCacheTime c else now1')"
    by (auto simp add: GetDeviceStats_def updateStatsCache_def Let_def split: if_splits)
  ultimately show ?thesis
    using st by simp
qed

text \<open>
  On the example context, whose cache has never been computed: the first call, at
  \<open>testNow\<close>, computes the snapshot at address 1; the second call, 59 seconds later,
  returns the same pointer and the same context.
\<close>

theorem GetDeviceStats_twice_witness:
  "fst (GetDeviceStats testNow testNow testContext) = 1 \<and>
   Since (testNow + 59 * Second)
     (statsCacheTime (snd (GetDeviceStats testNow testNow testContext))) < Minute \<and>
   GetDeviceStats (testNow + 59 * Second) (testNow + 59 * Second)
     (snd (GetDeviceStats testNow testNow testContext)) =
     GetDeviceStats testNow testNow testContext"
proof -
  let ?r = "GetDeviceStats testNow testNow testContext"
  have first: "?r = (fst ?r, snd ?r)"
    by simp
  have stale: "\<not> Since testNow (statsCacheTime testContext) < Minute"
    by (simp add: testContext_facts Since_zeroTime testNow_late)
  then have time: "statsCacheTime (snd ?r) = testNow"
    by (simp add: GetDeviceStats_stale updateStatsCache_fields)
  have fresh: "Since (testNow + 59 * Second) (statsCacheTime (snd ?r)) < Minute"
    unfolding time
    by (simp add: Since_def Sub_def Minute_def Second_def minDuration_def maxDuration_def)
  from stale have one: "fst ?r = 1"
    by (simp add: GetDeviceStats_stale updateStatsCache_fields testContext_facts)
  from GetDeviceStats_twice [OF first fresh]
  have "GetDeviceStats (testNow + 59 * Second) (testNow + 59 * Second) (snd ?r) =
      (fst ?r, snd ?r)"
    by blast
  then have second: "GetDeviceStats (testNow + 59 * Second) (testNow + 59 * Second) (snd ?r) = ?r"
    by simp
  from one fresh second show ?thesis
    by blast
qed

end
